theory Spec2Isabelle
  imports Complex_Main "HOL-Library.Sublist"
begin

section \<open>JavaScript values used by \<open>common.ts\<close>\<close>

text \<open>
  Strings are \<open>string\<close> (byte lists holding the UTF-8 form of the text). A value that
  may be \<open>null\<close> or \<open>undefined\<close> is an \<open>option\<close> where the source treats the two
  alike (truthiness tests, the null filter of \<open>objectToQueryParams\<close>); the domain, which
  a template literal prints, and the values of \<open>params\<close> have types of their own. Thrown errors are values: every function that can throw returns
  \<open>error + 'a\<close>.
\<close>

datatype error =
    Error string
  | TypeError string
  | Auth0Error string "error option"

text \<open>Truthiness of a \<open>string | null | undefined\<close> value: only a non-empty string.\<close>

fun truthy :: "string option \<Rightarrow> bool" where
  "truthy None = False"
| "truthy (Some s) = (s \<noteq> [])"

text \<open>\<open>a || b\<close> on optional strings.\<close>

definition or_else :: "string option \<Rightarrow> string option \<Rightarrow> string option" where
  "or_else a b = (if truthy a then a else b)"

text \<open>
  A string that a template literal prints: there \<open>null\<close> and \<open>undefined\<close> differ, so
  the value keeps them apart. \<open>String_js\<close> is \<open>String(v)\<close>.
\<close>

datatype jsstring = JUndefined | JNull | JString string

fun String_js :: "jsstring \<Rightarrow> string" where
  "String_js JUndefined = ''undefined''"
| "String_js JNull = ''null''"
| "String_js (JString s) = s"

text \<open>\<open>s.charAt(i)\<close>: the empty string outside the range.\<close>

definition charAt :: "string \<Rightarrow> int \<Rightarrow> string" where
  "charAt s i = (if 0 \<le> i \<and> i < int (length s) then [s ! nat i] else [])"

text \<open>\<open>s.split(sep)\<close> for a one-character separator: never an empty array.\<close>

fun split_js :: "char \<Rightarrow> string \<Rightarrow> string list" where
  "split_js sep [] = [[]]"
| "split_js sep (c # cs) =
     (if c = sep then [] # split_js sep cs
      else (case split_js sep cs of
              [] \<Rightarrow> [[c]]
            | x # xs \<Rightarrow> (c # x) # xs))"

text \<open>\<open>xs.join(sep)\<close>.\<close>

fun join_js :: "string \<Rightarrow> string list \<Rightarrow> string" where
  "join_js sep [] = []"
| "join_js sep [x] = x"
| "join_js sep (x # y # ys) = x @ sep @ join_js sep (y # ys)"

text \<open>\<open>xs[i]\<close>: \<open>undefined\<close> outside the range.\<close>

fun index_js :: "'a list \<Rightarrow> nat \<Rightarrow> 'a option" where
  "index_js [] i = None"
| "index_js (x # xs) 0 = Some x"
| "index_js (x # xs) (Suc i) = index_js xs i"

text \<open>\<open>s.includes(sub)\<close>.\<close>

fun includes_js :: "string \<Rightarrow> string \<Rightarrow> bool" where
  "includes_js [] sub = (sub = [])"
| "includes_js (c # cs) sub = (prefix sub (c # cs) \<or> includes_js cs sub)"

section \<open>The verifier generator\<close>

text \<open>
  \<open>getRandomValues(size)\<close> clamps the size and appends one character of \<open>possible\<close>
  per loop round. \<open>Math.random()\<close> is the environment: \<open>rnd k\<close> is the value of its
  \<open>k\<close>-th call within one run of the generator, taken as an exact real.
\<close>

definition possible :: string where
  "possible = ''ABCDEFGHIJKLMNOPQRSTUVWXYZabcdefghijklmnopqrstuvwxyz0123456789''"

function getRandomValues_loop :: "(nat \<Rightarrow> real) \<Rightarrow> int \<Rightarrow> int \<Rightarrow> string \<Rightarrow> string" where
  "getRandomValues_loop rnd sz i benchStr =
     (if i < sz
      then getRandomValues_loop rnd sz (i + 1)
             (benchStr @ charAt possible \<lfloor>rnd (nat i) * real (length possible)\<rfloor>)
      else benchStr)"
  by pat_completeness auto
termination
  by (relation "measure (\<lambda>(rnd, sz, i, benchStr). nat (sz - i))") auto

declare getRandomValues_loop.simps [simp del]

definition getRandomValues :: "(nat \<Rightarrow> real) \<Rightarrow> int \<Rightarrow> string" where
  "getRandomValues rnd size0 =
     (let sz = (if size0 \<ge> 43 \<and> size0 \<le> 128 then size0 else 128)
      in getRandomValues_loop rnd sz 0 [])"

text \<open>The character class \<open>[A-Za-z0-9]\<close>, by character code.\<close>

definition alphanumeric :: "char \<Rightarrow> bool" where
  "alphanumeric c =
     (let n = (of_char c :: nat)
      in (65 \<le> n \<and> n \<le> 90) \<or> (97 \<le> n \<and> n \<le> 122) \<or> (48 \<le> n \<and> n \<le> 57))"

section \<open>The PKCE challenge\<close>

text \<open>
  \<open>s.replace(/c/g, r)\<close> for a one-character pattern: every occurrence of \<open>c\<close> is
  replaced by the string \<open>r\<close>.
\<close>

definition replace_all :: "char \<Rightarrow> string \<Rightarrow> string \<Rightarrow> string" where
  "replace_all c r s = concat (map (\<lambda>x. if x = c then r else [x]) s)"

text \<open>
  The digest and its Base64 form come from the \<open>crypto-es\<close> package, which is not part
  of the repository: \<open>SHA256\<close> and \<open>Base64_stringify\<close> are parameters, the digest an
  opaque list of numbers. The three \<open>replace\<close> calls are those of
  \<open>prepareSignInAuthUrl\<close>, in the order of the source.
\<close>

definition challenge :: "(string \<Rightarrow> nat list) \<Rightarrow> (nat list \<Rightarrow> string) \<Rightarrow> string \<Rightarrow> string" where
  "challenge SHA256 Base64_stringify verifier =
     replace_all (CHR ''='') []
       (replace_all (CHR ''/'') ''_''
         (replace_all (CHR ''+'') ''-'' (Base64_stringify (SHA256 verifier))))"

text \<open>
  The derivation as the specification words it: one pass over the Base64 text that turns
  each \<open>+\<close> into \<open>-\<close>, each \<open>/\<close> into \<open>_\<close> and drops each \<open>=\<close>.
\<close>

definition deriveChallenge_spec :: "(string \<Rightarrow> nat list) \<Rightarrow> (nat list \<Rightarrow> string) \<Rightarrow> string \<Rightarrow> string" where
  "deriveChallenge_spec SHA256 Base64_stringify verifier =
     concat (map (\<lambda>x. if x = CHR ''+'' then ''-''
                        else if x = CHR ''/'' then ''_''
                        else if x = CHR ''='' then []
                        else [x])
                 (Base64_stringify (SHA256 verifier)))"

section \<open>Query strings\<close>

text \<open>
  \<open>encodeURIComponent\<close> on a UTF-8 byte string: the unreserved characters
  \<open>A-Z a-z 0-9 - _ . ! ~ * ' ( )\<close> stay, every other byte becomes \<open>%XX\<close> in upper-case
  hexadecimal. (A lone surrogate, on which the JavaScript function throws, has no UTF-8
  form and so is outside the model.)
\<close>

definition unreserved :: "char \<Rightarrow> bool" where
  "unreserved c = (alphanumeric c \<or> c \<in> set ''-_.!~*()'' \<or> c = CHR 0x27)"

definition hex_digit :: "nat \<Rightarrow> char" where
  "hex_digit n = ''0123456789ABCDEF'' ! (n mod 16)"

definition encode_char :: "char \<Rightarrow> string" where
  "encode_char c =
     (if unreserved c then [c]
      else [CHR ''%'', hex_digit (of_char c div 16), hex_digit (of_char c)])"

definition encodeURIComponent :: "string \<Rightarrow> string" where
  "encodeURIComponent s = concat (map encode_char s)"

text \<open>
  The values of the \<open>params\<close> object. \<open>String(item)\<close> and \<open>JSON.stringify(value)\<close> are
  platform functions: a primitive carries its \<open>String\<close> form, an array the \<open>String\<close>
  forms of its items, an object its \<open>JSON.stringify\<close> form.
\<close>

datatype qvalue =
    QNull
  | QUndefined
  | QPrimitive string
  | QArray "string list"
  | QObject string

definition keyvalue :: "string \<Rightarrow> string \<Rightarrow> string" where
  "keyvalue key text = encodeURIComponent key @ ''='' @ encodeURIComponent text"

fun query_entry :: "string \<times> qvalue \<Rightarrow> string" where
  "query_entry (key, QArray items) = join_js ''&'' (map (\<lambda>item. keyvalue key item) items)"
| "query_entry (key, QObject json) = keyvalue key json"
| "query_entry (key, QNull) = keyvalue key ''null''"
| "query_entry (key, QPrimitive text) = keyvalue key text"
| "query_entry (key, QUndefined) = keyvalue key ''undefined''"

definition objectToQueryParams :: "(string \<times> qvalue) list \<Rightarrow> string" where
  "objectToQueryParams params =
     (let validParams = filter (\<lambda>(_, v). v \<noteq> QNull \<and> v \<noteq> QUndefined) params
      in if length validParams = 0 then []
         else (let queryString = join_js ''&'' (map query_entry validParams)
               in ''?'' @ queryString))"

section \<open>Configuration and URL builders\<close>

record Auth0Config =
  domain :: jsstring
  clientId :: "string option"
  audience :: "string option"
  redirectUri :: "string option"
  scope :: "string option"

record Config =
  auth0Config :: Auth0Config
  browserConfig :: "(string \<times> string) list"

text \<open>The fields of the \<open>Auth0Common\<close> object that the modelled methods read.\<close>

record Auth0Common =
  config :: Config
  verifier :: string
  SHA256 :: "string \<Rightarrow> nat list"
  Base64_stringify :: "nat list \<Rightarrow> string"

text \<open>A field of \<open>params\<close> holding a configuration string that may be missing.\<close>

fun qfield :: "string option \<Rightarrow> qvalue" where
  "qfield None = QUndefined"
| "qfield (Some s) = QPrimitive s"

text \<open>\<open>hint || null\<close>.\<close>

definition or_null :: "string option \<Rightarrow> qvalue" where
  "or_null hint = (if truthy hint then qfield hint else QNull)"

definition missing_fields :: error where
  "missing_fields = Error ''Auth0 configuration is missing required fields.''"

text \<open>
  \<open>prepareSignInAuthUrl\<close>. The \<open>console.error\<close> before the \<open>throw\<close> writes to the log
  only and is left out.
\<close>

definition signIn_params :: "Auth0Common \<Rightarrow> string option \<Rightarrow> string option \<Rightarrow> string option
    \<Rightarrow> (string \<times> qvalue) list" where
  "signIn_params this loginHint connection screenHint =
     (let cfg = auth0Config (config this)
      in [(''audience'', qfield (audience cfg)),
          (''scope'', qfield (or_else (scope cfg) (Some ''offline_access openid profile email''))),
          (''response_type'', QPrimitive ''code''),
          (''client_id'', qfield (clientId cfg)),
          (''redirect_uri'', qfield (redirectUri cfg)),
          (''code_challenge'',
             QPrimitive (challenge (SHA256 this) (Base64_stringify this) (verifier this))),
          (''code_challenge_method'', QPrimitive ''S256''),
          (''login_hint'', or_null loginHint),
          (''connection'', or_null connection),
          (''screen_hint'', or_null screenHint)])"

definition prepareSignInAuthUrl :: "Auth0Common \<Rightarrow> string option \<Rightarrow> string option \<Rightarrow> string option
    \<Rightarrow> error + string" where
  "prepareSignInAuthUrl this loginHint connection screenHint =
     (let cfg = auth0Config (config this);
          params = signIn_params this loginHint connection screenHint
      in if \<not> truthy (audience cfg) \<or> \<not> truthy (clientId cfg) \<or> \<not> truthy (redirectUri cfg)
         then Inl missing_fields
         else Inr (''https://'' @ String_js (domain cfg) @ ''/authorize''
                   @ objectToQueryParams params))"

definition prepareSignUpAuthUrl :: "Auth0Common \<Rightarrow> string option \<Rightarrow> error + string" where
  "prepareSignUpAuthUrl this loginHint = prepareSignInAuthUrl this loginHint None (Some ''signup'')"

definition logOut_params :: "Auth0Common \<Rightarrow> (string \<times> qvalue) list" where
  "logOut_params this =
     (let cfg = auth0Config (config this)
      in [(''client_id'', qfield (clientId cfg)),
          (''returnTo'', qfield (redirectUri cfg))])"

definition prepareLogOutAuthUrl :: "Auth0Common \<Rightarrow> error + string" where
  "prepareLogOutAuthUrl this =
     (let cfg = auth0Config (config this);
          params = logOut_params this
      in if \<not> truthy (clientId cfg) \<or> \<not> truthy (redirectUri cfg)
         then Inl missing_fields
         else Inr (''https://'' @ String_js (domain cfg) @ ''/v2/logout''
                   @ objectToQueryParams params))"

section \<open>Storage and the outside world\<close>

text \<open>A JavaScript number as the expiry needs it: an exact integer or \<open>NaN\<close>.\<close>

datatype jsnumber = Num int | NaN

datatype setting = SNumber jsnumber | SString string | SBoolean bool

datatype result_type = success | cancel | dismiss

record AuthSessionResult =
  rtype :: result_type
  url :: "string option"

record TokenSet =
  access_token :: "string option"
  refresh_token :: "string option"
  expires_in :: "int option"

record HttpRequest =
  request_url :: string
  request_method :: string
  request_headers :: "(string \<times> string) list"
  request_content :: "(string \<times> string option) list"

text \<open>The calls that leave the process, in the order they were made.\<close>

datatype call =
    IsAvailable
  | OpenAuth string "string option" "(string \<times> string) list option"
  | OpenUrl string
  | Request HttpRequest

text \<open>
  The mutable world: the secure store, the settings store, the values pushed to
  \<open>accessToken$\<close>, and the log of outside calls.
\<close>

record world =
  secureStorage :: "string \<rightharpoonup> string"
  applicationSettings :: "string \<rightharpoonup> setting"
  accessToken_next :: "string option list"
  calls :: "call list"

text \<open>
  The collaborators, as functions of the calls made so far and of the arguments. A
  rejected promise or a throw is \<open>Inl\<close>. \<open>request\<close> stands for \<open>Http.request\<close>
  followed by \<open>response.content.toJSON()\<close> (the status code is never read on the token
  paths); its value \<open>None\<close> is a JSON \<open>null\<close>. \<open>login_hint_of\<close>
  stands for \<open>new URLSearchParams(new URL(u).search).get('login_hint')\<close>.
  \<open>LocalTZA t isUTC\<close> is the device's time zone, as ECMAScript names it: the offset in
  milliseconds of local time from UTC, at the UTC instant \<open>t\<close> when \<open>isUTC\<close> holds and
  for the local wall-clock time \<open>t\<close> otherwise.
\<close>

record platform =
  LocalTZA :: "int \<Rightarrow> bool \<Rightarrow> int"
  isAvailable :: "call list \<Rightarrow> error + bool"
  openAuth :: "call list \<Rightarrow> string \<Rightarrow> string option \<Rightarrow> (string \<times> string) list option
                 \<Rightarrow> error + AuthSessionResult"
  request :: "call list \<Rightarrow> HttpRequest \<Rightarrow> error + TokenSet option"
  login_hint_of :: "string \<Rightarrow> error + string option"

definition refresh_token_key :: string where
  "refresh_token_key = ''@plantimer/auth0_refresh_token''"

definition access_token_key :: string where
  "access_token_key = ''@plantimer/auth0_access_token''"

definition access_token_expire_key :: string where
  "access_token_expire_key = ''@plantimer/auth0_access_token_expire''"

definition user_info_key :: string where
  "user_info_key = ''@plantimer/auth0_user_info''"

definition user_logged_in_key :: string where
  "user_logged_in_key = ''@plantimer/auth0_user_logged_in''"

definition getSync :: "world \<Rightarrow> string \<Rightarrow> string option" where
  "getSync w key = secureStorage w key"

definition setSync :: "string \<Rightarrow> string \<Rightarrow> world \<Rightarrow> world" where
  "setSync key v w = w\<lparr>secureStorage := (secureStorage w)(key \<mapsto> v)\<rparr>"

definition removeSync :: "string \<Rightarrow> world \<Rightarrow> world" where
  "removeSync key w = w\<lparr>secureStorage := (secureStorage w)(key := None)\<rparr>"

text \<open>\<open>ApplicationSettings.getNumber\<close>: \<open>undefined\<close> unless the key holds a number.\<close>

definition getNumber :: "world \<Rightarrow> string \<Rightarrow> jsnumber option" where
  "getNumber w key =
     (case applicationSettings w key of
        Some (SNumber n) \<Rightarrow> Some n
      | _ \<Rightarrow> None)"

definition setNumber :: "string \<Rightarrow> jsnumber \<Rightarrow> world \<Rightarrow> world" where
  "setNumber key n w = w\<lparr>applicationSettings := (applicationSettings w)(key \<mapsto> SNumber n)\<rparr>"

definition remove_setting :: "string \<Rightarrow> world \<Rightarrow> world" where
  "remove_setting key w = w\<lparr>applicationSettings := (applicationSettings w)(key := None)\<rparr>"

definition next_accessToken :: "string option \<Rightarrow> world \<Rightarrow> world" where
  "next_accessToken v w = w\<lparr>accessToken_next := accessToken_next w @ [v]\<rparr>"

definition record_call :: "call \<Rightarrow> world \<Rightarrow> world" where
  "record_call c w = w\<lparr>calls := calls w @ [c]\<rparr>"

text \<open>The string held by a value already known to be truthy.\<close>

fun string_of :: "string option \<Rightarrow> string" where
  "string_of None = []"
| "string_of (Some s) = s"

text \<open>Truthiness of a number or \<open>undefined\<close>: not \<open>0\<close>, not \<open>NaN\<close>.\<close>

fun truthy_number :: "jsnumber option \<Rightarrow> bool" where
  "truthy_number None = False"
| "truthy_number (Some NaN) = False"
| "truthy_number (Some (Num n)) = (n \<noteq> 0)"

text \<open>
  \<open>Date.now() <= tokenExpire\<close>, evaluated only where \<open>tokenExpire\<close> is truthy. A clock
  reading is a count of milliseconds since the epoch, a natural number.
\<close>

fun now_le :: "nat \<Rightarrow> jsnumber option \<Rightarrow> bool" where
  "now_le now (Some (Num n)) = (int now \<le> n)"
| "now_le now _ = False"

text \<open>\<open>TimeClip\<close>: a time value beyond the range of \<open>Date\<close> is \<open>NaN\<close>.\<close>

definition TimeClip :: "int \<Rightarrow> jsnumber" where
  "TimeClip t = (if \<bar>t\<bar> \<le> 8640000000000000 then Num t else NaN)"

text \<open>
  \<open>new Date()\<close> at \<open>now\<close>, then \<open>setSeconds(getSeconds() + expireSeconds)\<close>, then
  \<open>getTime()\<close>. \<open>setSeconds\<close> works on local wall-clock time: it takes the local time
  of the instant, replaces its seconds field, which moves the local time by
  \<open>1000 * expireSeconds\<close>, and converts the result back to UTC with the offset of that
  local time. An absent \<open>expires_in\<close> makes the sum, and so the date, \<open>NaN\<close>.
\<close>

fun expire_time :: "(int \<Rightarrow> bool \<Rightarrow> int) \<Rightarrow> nat \<Rightarrow> int option \<Rightarrow> jsnumber" where
  "expire_time tz now None = NaN"
| "expire_time tz now (Some expireSeconds) =
     (let t = int now + tz (int now) True;
          date = t + 1000 * expireSeconds
      in TimeClip (date - tz date False))"

section \<open>Storing and clearing tokens\<close>

text \<open>\<open>json\<close> is \<open>None\<close> when the JSON value is \<open>null\<close>; \<open>json.refresh_token\<close> then throws.\<close>

definition storeRefreshToken :: "TokenSet option \<Rightarrow> world \<Rightarrow> error + (string option \<times> world)" where
  "storeRefreshToken json w =
     (case json of
        None \<Rightarrow> Inl (TypeError ''Cannot read properties of null (reading 'refresh_token')'')
      | Some j \<Rightarrow>
          (let refreshToken = refresh_token j
           in if \<not> truthy refreshToken then Inr (None, w)
              else Inr (refreshToken, setSync refresh_token_key (string_of refreshToken) w)))"

definition storeAccessToken :: "platform \<Rightarrow> nat \<Rightarrow> TokenSet option \<Rightarrow> world
    \<Rightarrow> string option \<times> world" where
  "storeAccessToken env now json w =
     (let accessToken = (case json of None \<Rightarrow> None | Some j \<Rightarrow> access_token j)
      in if \<not> truthy accessToken then (None, w)
         else (let expireSeconds = (case json of None \<Rightarrow> None | Some j \<Rightarrow> expires_in j);
                   w1 = setSync access_token_key (string_of accessToken) w;
                   expireDate = expire_time (LocalTZA env) now expireSeconds;
                   w2 = setNumber access_token_expire_key expireDate w1
               in (accessToken, w2)))"

text \<open>\<open>setTokens\<close>: the clock is read once, by \<open>storeAccessToken\<close>.\<close>

definition setTokens :: "platform \<Rightarrow> nat \<Rightarrow> TokenSet \<Rightarrow> world \<Rightarrow> (error + unit) \<times> world" where
  "setTokens env now json w =
     (case storeRefreshToken (Some json) w of
        Inl e \<Rightarrow> (Inl e, w)
      | Inr (_, w1) \<Rightarrow> (Inr (), snd (storeAccessToken env now (Some json) w1)))"

definition clearStorage :: "world \<Rightarrow> world" where
  "clearStorage w =
     next_accessToken (Some [])
       (remove_setting user_logged_in_key
         (remove_setting user_info_key
           (remove_setting access_token_expire_key
             (removeSync access_token_key
               (removeSync refresh_token_key w)))))"

section \<open>Token exchanges\<close>

definition token_url :: "Auth0Common \<Rightarrow> string" where
  "token_url this = ''https://'' @ String_js (domain (auth0Config (config this))) @ ''/oauth/token''"

definition code_request :: "Auth0Common \<Rightarrow> string \<Rightarrow> string \<Rightarrow> HttpRequest" where
  "code_request this code verif =
     \<lparr>request_url = token_url this,
      request_method = ''POST'',
      request_headers = [(''content-type'', ''application/json'')],
      request_content =
        [(''grant_type'', Some ''authorization_code''),
         (''client_id'', clientId (auth0Config (config this))),
         (''code'', Some code),
         (''code_verifier'', Some verif),
         (''audience'', audience (auth0Config (config this))),
         (''redirect_uri'', redirectUri (auth0Config (config this)))]\<rparr>"

definition refresh_request :: "Auth0Common \<Rightarrow> string \<Rightarrow> HttpRequest" where
  "refresh_request this refreshToken =
     \<lparr>request_url = token_url this,
      request_method = ''POST'',
      request_headers = [(''content-type'', ''application/json'')],
      request_content =
        [(''grant_type'', Some ''refresh_token''),
         (''client_id'', clientId (auth0Config (config this))),
         (''refresh_token'', Some refreshToken)]\<rparr>"

text \<open>\<open>now\<close> is the clock at the moment \<open>storeAccessToken\<close> runs, after the response.\<close>

definition fetchRefreshToken :: "platform \<Rightarrow> Auth0Common \<Rightarrow> nat \<Rightarrow> string \<Rightarrow> string \<Rightarrow> world
    \<Rightarrow> (error + unit) \<times> world" where
  "fetchRefreshToken env this now code verif w =
     (if code = [] \<or> verif = [] then (Inl (Auth0Error ''Missing code or verifier'' None), w)
      else (let req = code_request this code verif;
                w1 = record_call (Request req) w
            in case request env (calls w) req of
                 Inl e \<Rightarrow> (Inl e, w1)
               | Inr json \<Rightarrow>
                   (case storeRefreshToken json w1 of
                      Inl e \<Rightarrow> (Inl e, w1)
                    | Inr (_, w2) \<Rightarrow> (Inr (), snd (storeAccessToken env now json w2)))))"

definition fetchAccessToken :: "platform \<Rightarrow> Auth0Common \<Rightarrow> nat \<Rightarrow> world
    \<Rightarrow> (error + string option) \<times> world" where
  "fetchAccessToken env this now w =
     (let refreshToken = getSync w refresh_token_key
      in if \<not> truthy refreshToken then (Inr None, w)
         else (let req = refresh_request this (string_of refreshToken);
                   w1 = record_call (Request req) w;
                   wrap = (\<lambda>e. Auth0Error
                      ''Issue when fetching an access token using a refresh token'' (Some e))
               in case request env (calls w) req of
                    Inl e \<Rightarrow> (Inl (wrap e), w1)
                  | Inr json \<Rightarrow>
                      (case storeRefreshToken json w1 of
                         Inl e \<Rightarrow> (Inl (wrap e), w1)
                       | Inr (_, w2) \<Rightarrow>
                           (let w3 = snd (storeAccessToken env now json w2)
                            in (Inr (case json of None \<Rightarrow> None | Some j \<Rightarrow> access_token j), w3)))))"

text \<open>
  \<open>getAccessToken(force)\<close>: \<open>t_check\<close> is the clock at the expiry test, \<open>t_store\<close> the
  clock when a refreshed token is stored.
\<close>

definition getAccessToken :: "platform \<Rightarrow> Auth0Common \<Rightarrow> nat \<Rightarrow> nat \<Rightarrow> bool \<Rightarrow> world
    \<Rightarrow> (error + string option) \<times> world" where
  "getAccessToken env this t_check t_store force w =
     (let w0 = (if force then removeSync access_token_key w else w);
          tokenExpire = getNumber w0 access_token_expire_key;
          storedToken = getSync w0 access_token_key
      in if truthy storedToken \<and> truthy_number tokenExpire \<and> now_le t_check tokenExpire
         then (Inr storedToken, w0)
         else (case fetchAccessToken env this t_store w0 of
                 (Inl e, w1) \<Rightarrow> (Inl e, w1)
               | (Inr accessToken, w1) \<Rightarrow> (Inr accessToken, next_accessToken accessToken w1)))"

section \<open>The browser round trip\<close>

definition call_openAuth :: "platform \<Rightarrow> string \<Rightarrow> string option \<Rightarrow> (string \<times> string) list option
    \<Rightarrow> world \<Rightarrow> (error + AuthSessionResult) \<times> world" where
  "call_openAuth env u returnUrl options w =
     (openAuth env (calls w) u returnUrl options, record_call (OpenAuth u returnUrl options) w)"

text \<open>\<open>response.url.split('=')[1]\<close>.\<close>

definition split_code :: "string \<Rightarrow> string option" where
  "split_code u = index_js (split_js (CHR ''='') u) 1"

text \<open>
  \<open>fetchCodeInAppBrowser\<close>. The result \<open>None\<close> is \<open>false\<close> or \<open>undefined\<close>, which the
  callers treat alike (\<open>!code\<close>).
\<close>

definition fetchCodeInAppBrowser :: "platform \<Rightarrow> Auth0Common \<Rightarrow> string \<Rightarrow> world
    \<Rightarrow> (error + string option) \<times> world" where
  "fetchCodeInAppBrowser env this authorizeUrl w =
     (let returnUrl = redirectUri (auth0Config (config this))
      in case call_openAuth env authorizeUrl returnUrl None w of
           (Inl e, w1) \<Rightarrow> (Inl e, w1)
         | (Inr response, w1) \<Rightarrow>
             (case (if rtype response = success
                       \<and> (case url response of None \<Rightarrow> False
                           | Some u \<Rightarrow> includes_js u ''/passwordless'')
                    then (case login_hint_of env (string_of (url response)) of
                            Inl e \<Rightarrow> (Inl e, w1)
                          | Inr loginHint \<Rightarrow>
                              (case prepareSignInAuthUrl this loginHint (Some ''email'') None of
                                 Inl e \<Rightarrow> (Inl e, w1)
                               | Inr u2 \<Rightarrow> call_openAuth env u2 returnUrl None w1))
                    else (Inr response, w1)) of
                (Inl e, w2) \<Rightarrow> (Inl e, w2)
              | (Inr response2, w2) \<Rightarrow>
                  (if rtype response2 = success \<and> truthy (url response2)
                   then (Inr (split_code (string_of (url response2))), w2)
                   else (Inr None, w2))))"

section \<open>Sign in and log out\<close>

text \<open>The body of the \<open>try\<close> block of \<open>signIn\<close>.\<close>

definition signIn_try :: "platform \<Rightarrow> Auth0Common \<Rightarrow> nat \<Rightarrow> string option \<Rightarrow> string option \<Rightarrow> world
    \<Rightarrow> (error + bool) \<times> world" where
  "signIn_try env this now loginHint connection w =
     (case prepareSignInAuthUrl this loginHint connection None of
        Inl e \<Rightarrow> (Inl e, w)
      | Inr authorizeUrl \<Rightarrow>
          (case fetchCodeInAppBrowser env this authorizeUrl w of
             (Inl e, w1) \<Rightarrow> (Inl e, w1)
           | (Inr code, w1) \<Rightarrow>
               (if \<not> truthy code then (Inr False, w1)
                else (case fetchRefreshToken env this now (string_of code) (verifier this) w1 of
                        (Inl e, w2) \<Rightarrow> (Inl e, w2)
                      | (Inr _, w2) \<Rightarrow> (Inr True, w2)))))"

definition signIn :: "platform \<Rightarrow> Auth0Common \<Rightarrow> nat \<Rightarrow> string option \<Rightarrow> string option \<Rightarrow> world
    \<Rightarrow> (error + bool) \<times> world" where
  "signIn env this now loginHint connection w =
     (case signIn_try env this now loginHint connection w of
        (Inl e, w1) \<Rightarrow> (Inl (Auth0Error ''Error during sign in'' (Some e)), clearStorage w1)
      | (Inr b, w1) \<Rightarrow> (Inr b, w1))"

text \<open>
  \<open>logOut\<close>. The logout URL is built before the \<open>try\<close>, so its error is not wrapped.
  \<open>Utils.openUrl\<close> returns a flag that is not read.
\<close>

definition logOut :: "platform \<Rightarrow> Auth0Common \<Rightarrow> world \<Rightarrow> (error + bool) \<times> world" where
  "logOut env this w =
     (let returnTo = redirectUri (auth0Config (config this))
      in case prepareLogOutAuthUrl this of
           Inl e \<Rightarrow> (Inl e, w)
         | Inr logout \<Rightarrow>
             (let wrap = (\<lambda>e. Auth0Error ''Something happened while logging out'' (Some e));
                  w1 = record_call IsAvailable w
              in case isAvailable env (calls w) of
                   Inl e \<Rightarrow> (Inl (wrap e), w1)
                 | Inr True \<Rightarrow>
                     (case call_openAuth env logout returnTo (Some (browserConfig (config this))) w1 of
                        (Inl e, w2) \<Rightarrow> (Inl (wrap e), w2)
                      | (Inr response, w2) \<Rightarrow>
                          (if rtype response = cancel then (Inr False, w2)
                           else (Inr True, clearStorage w2)))
                 | Inr False \<Rightarrow> (Inr True, clearStorage (record_call (OpenUrl logout) w1))))"

section \<open>A sample session and sample collaborators\<close>

definition sample_config :: Config where
  "sample_config =
     \<lparr>auth0Config = \<lparr>domain = JString ''t.auth0.com'', clientId = Some ''c'',
                      audience = Some ''a'', redirectUri = Some ''app://cb'', scope = None\<rparr>,
      browserConfig = []\<rparr>"

definition sample_session :: Auth0Common where
  "sample_session =
     \<lparr>config = sample_config, verifier = ''v'',
      SHA256 = (\<lambda>s. map of_char s), Base64_stringify = (\<lambda>d. ''a+b/c='')\<rparr>"

text \<open>The same session with an empty client id.\<close>

definition unconfigured_session :: Auth0Common where
  "unconfigured_session =
     sample_session\<lparr>config :=
       \<lparr>auth0Config = \<lparr>domain = JString ''t.auth0.com'', clientId = Some [],
                        audience = Some ''a'', redirectUri = Some ''app://cb'', scope = None\<rparr>,
        browserConfig = []\<rparr>\<rparr>"

definition empty_world :: world where
  "empty_world =
     \<lparr>secureStorage = Map.empty, applicationSettings = Map.empty,
      accessToken_next = [], calls = []\<rparr>"

text \<open>A world in which all five keys hold a value.\<close>

definition populated_world :: world where
  "populated_world =
     \<lparr>secureStorage = [refresh_token_key \<mapsto> ''R'', access_token_key \<mapsto> ''A''],
      applicationSettings = [access_token_expire_key \<mapsto> SNumber (Num 10),
                             user_info_key \<mapsto> SString ''{}'',
                             user_logged_in_key \<mapsto> SBoolean True],
      accessToken_next = [], calls = []\<rparr>"

text \<open>
  Collaborators that always answer the same: the browser is available and returns
  \<open>response\<close>, the token endpoint returns \<open>answer\<close>, a callback has no login hint. The
  device keeps UTC.
\<close>

definition scripted :: "AuthSessionResult \<Rightarrow> error + TokenSet option \<Rightarrow> platform" where
  "scripted response answer =
     \<lparr>LocalTZA = (\<lambda>t isUTC. 0),
      isAvailable = (\<lambda>history. Inr True),
      openAuth = (\<lambda>history u returnUrl options. Inr response),
      request = (\<lambda>history req. answer),
      login_hint_of = (\<lambda>u. Inr None)\<rparr>"

definition offline :: platform where
  "offline =
     \<lparr>LocalTZA = (\<lambda>t isUTC. 0),
      isAvailable = (\<lambda>history. Inl (Error ''offline'')),
      openAuth = (\<lambda>history u returnUrl options. Inl (Error ''offline'')),
      request = (\<lambda>history req. Inl (Error ''offline'')),
      login_hint_of = (\<lambda>u. Inl (Error ''offline''))\<rparr>"

text \<open>
  The zone \<open>Antarctica/Troll\<close> around the end of its summer time on 2023-10-29 at
  01:00 UTC (\<open>1698541200000\<close>), when the offset drops from two hours to none and the
  local times from 01:00 to 03:00 come a second time. A repeated local time is read with
  the offset before the transition.
\<close>

definition troll :: "int \<Rightarrow> bool \<Rightarrow> int" where
  "troll t isUTC =
     (if isUTC then (if t < 1698541200000 then 7200000 else 0)
      else (if t < 1698541200000 + 7200000 then 7200000 else 0))"

definition troll_offline :: platform where
  "troll_offline = offline\<lparr>LocalTZA := troll\<rparr>"

section \<open>Properties of the verifier generator\<close>

lemma length_possible: "length possible = 62"
  by (simp add: possible_def)

lemma possible_alphanumeric: "\<forall>c \<in> set possible. alphanumeric c"
  by (simp add: possible_def alphanumeric_def)

lemma charAt_possible_unit:
  assumes "0 \<le> r" and "r < 1"
  shows "\<exists>c. charAt possible \<lfloor>r * real (length possible)\<rfloor> = [c] \<and> c \<in> set possible"
proof -
  have lo: "0 \<le> \<lfloor>r * 62\<rfloor>"
    using assms by simp
  have "r * 62 < 62"
    using assms by simp
  then have hi: "\<lfloor>r * 62\<rfloor> < 62"
    by (simp add: floor_less_iff)
  have "nat \<lfloor>r * 62\<rfloor> < length possible"
    using lo hi unfolding length_possible by linarith
  then have mem: "possible ! nat \<lfloor>r * 62\<rfloor> \<in> set possible"
    by (rule nth_mem)
  have "charAt possible \<lfloor>r * real (length possible)\<rfloor> = [possible ! nat \<lfloor>r * 62\<rfloor>]"
    using lo hi by (simp add: charAt_def length_possible)
  with mem show ?thesis
    by blast
qed

lemma getRandomValues_loop_appends:
  "\<forall>k. 0 \<le> rnd k \<and> rnd k < 1 \<Longrightarrow>
   \<exists>cs. getRandomValues_loop rnd sz i benchStr = benchStr @ cs
        \<and> length cs = nat (sz - i) \<and> set cs \<subseteq> set possible"
proof (induction rnd sz i benchStr rule: getRandomValues_loop.induct)
  case (1 rnd sz i benchStr)
  show ?case
  proof (cases "i < sz")
    case True
    obtain c where c: "charAt possible \<lfloor>rnd (nat i) * real (length possible)\<rfloor> = [c]"
      and c_in: "c \<in> set possible"
      using charAt_possible_unit [of "rnd (nat i)"] "1.prems" by blast
    obtain cs where cs: "getRandomValues_loop rnd sz (i + 1) (benchStr @ [c]) = (benchStr @ [c]) @ cs"
      and len: "length cs = nat (sz - (i + 1))" and sub: "set cs \<subseteq> set possible"
      using "1.IH" [OF True "1.prems"] c by auto
    have unfold: "getRandomValues_loop rnd sz i benchStr = benchStr @ (c # cs)"
      using True c cs by (subst getRandomValues_loop.simps) simp
    have "length (c # cs) = nat (sz - i)"
      using len True by simp
    moreover have "set (c # cs) \<subseteq> set possible"
      using sub c_in by simp
    ultimately show ?thesis
      using unfold by blast
  next
    case False
    then have "getRandomValues_loop rnd sz i benchStr = benchStr @ []"
      by (subst getRandomValues_loop.simps) simp
    then show ?thesis
      using False by force
  qed
qed

text \<open>
  C4. For an integer size \<open>n\<close> with \<open>43 \<le> n \<le> 128\<close> the generated verifier has exactly
  \<open>n\<close> characters, for any other integer it has 128, and in both cases every character
  is one of \<open>[A-Za-z0-9]\<close>, whatever values in \<open>[0, 1)\<close> the random source returns.
\<close>

theorem getRandomValues_length_alphabet:
  assumes "\<forall>k. 0 \<le> rnd k \<and> rnd k < 1"
  shows "length (getRandomValues rnd n) = (if 43 \<le> n \<and> n \<le> 128 then nat n else 128)
         \<and> (\<forall>c \<in> set (getRandomValues rnd n). alphanumeric c)"
proof -
  define sz where "sz = (if n \<ge> 43 \<and> n \<le> 128 then n else 128)"
  obtain cs where run: "getRandomValues_loop rnd sz 0 [] = [] @ cs"
    and len: "length cs = nat (sz - 0)" and sub: "set cs \<subseteq> set possible"
    using getRandomValues_loop_appends [OF assms, of sz 0 "[]"] by blast
  have res: "getRandomValues rnd n = cs"
    using run by (simp add: getRandomValues_def sz_def)
  have "length cs = (if 43 \<le> n \<and> n \<le> 128 then nat n else 128)"
    using len by (simp add: sz_def)
  moreover have "\<forall>c \<in> set cs. alphanumeric c"
    using sub possible_alphanumeric by blast
  ultimately show ?thesis
    using res by simp
qed

theorem getRandomValues_length_alphabet_witness:
  "(\<forall>k. (0::real) \<le> (\<lambda>k. 1 / 2) k \<and> (\<lambda>k. 1 / 2) k < (1::real))
   \<and> length (getRandomValues (\<lambda>k. 1 / 2) 43) = 43
   \<and> length (getRandomValues (\<lambda>k. 1 / 2) 32) = 128
   \<and> list_all alphanumeric (getRandomValues (\<lambda>k. 1 / 2) 43)"
proof -
  have h: "\<forall>k. (0::real) \<le> (\<lambda>k. 1 / 2) k \<and> (\<lambda>k. 1 / 2) k < (1::real)"
    by simp
  show ?thesis
    using h getRandomValues_length_alphabet [OF h, of 43]
      getRandomValues_length_alphabet [OF h, of 32]
    by (simp add: list_all_iff)
qed

section \<open>Properties of the challenge derivation\<close>

lemma replace_chain_one_pass:
  "replace_all (CHR ''='') [] (replace_all (CHR ''/'') ''_'' (replace_all (CHR ''+'') ''-'' xs))
   = concat (map (\<lambda>x. if x = CHR ''+'' then ''-''
                        else if x = CHR ''/'' then ''_''
                        else if x = CHR ''='' then []
                        else [x]) xs)"
  by (induction xs) (simp_all add: replace_all_def)

lemma replace_chain_url_safe:
  "c \<in> set (concat (map (\<lambda>x. if x = CHR ''+'' then ''-''
                        else if x = CHR ''/'' then ''_''
                        else if x = CHR ''='' then []
                        else [x]) xs))
   \<Longrightarrow> c \<noteq> CHR ''+'' \<and> c \<noteq> CHR ''/'' \<and> c \<noteq> CHR ''=''"
  by (induction xs) (auto split: if_splits)

text \<open>
  C9. The challenge computed by \<open>prepareSignInAuthUrl\<close> is a function of the verifier
  alone (given the digest and Base64 functions): it is the Base64 text of the digest with
  each \<open>+\<close> turned into \<open>-\<close>, each \<open>/\<close> into \<open>_\<close> and each \<open>=\<close> dropped, and none of
  \<open>+\<close>, \<open>/\<close>, \<open>=\<close> occurs in it.
\<close>

theorem challenge_is_url_safe_derivation:
  "challenge sha b64 v = deriveChallenge_spec sha b64 v
   \<and> CHR ''+'' \<notin> set (challenge sha b64 v)
   \<and> CHR ''/'' \<notin> set (challenge sha b64 v)
   \<and> CHR ''='' \<notin> set (challenge sha b64 v)"
proof -
  have eq: "challenge sha b64 v = deriveChallenge_spec sha b64 v"
    unfolding challenge_def deriveChallenge_spec_def by (rule replace_chain_one_pass)
  have "\<And>c. c \<in> set (challenge sha b64 v)
          \<Longrightarrow> c \<noteq> CHR ''+'' \<and> c \<noteq> CHR ''/'' \<and> c \<noteq> CHR ''=''"
    unfolding eq deriveChallenge_spec_def by (rule replace_chain_url_safe)
  then show ?thesis
    using eq by blast
qed

section \<open>Properties of the token store\<close>

lemma keys_distinct:
  "refresh_token_key \<noteq> access_token_key"
  "access_token_key \<noteq> refresh_token_key"
  "access_token_expire_key \<noteq> user_info_key"
  "access_token_expire_key \<noteq> user_logged_in_key"
  "user_info_key \<noteq> access_token_expire_key"
  "user_info_key \<noteq> user_logged_in_key"
  "user_logged_in_key \<noteq> access_token_expire_key"
  "user_logged_in_key \<noteq> user_info_key"
  by (simp_all add: refresh_token_key_def access_token_key_def access_token_expire_key_def
      user_info_key_def user_logged_in_key_def)

lemma storeRefreshToken_frame:
  assumes "storeRefreshToken json w = Inr (r, w1)"
  shows "secureStorage w1 access_token_key = secureStorage w access_token_key"
    and "applicationSettings w1 = applicationSettings w"
    and "accessToken_next w1 = accessToken_next w"
    and "calls w1 = calls w"
  using assms
  by (auto simp: storeRefreshToken_def setSync_def Let_def keys_distinct
      split: option.splits if_splits)

lemma storeAccessToken_falsy:
  assumes "\<not> truthy (access_token json)"
  shows "storeAccessToken env now (Some json) w = (None, w)"
  using assms by (simp add: storeAccessToken_def)

lemma storeAccessToken_log:
  "accessToken_next (snd (storeAccessToken env now json w)) = accessToken_next w"
  "calls (snd (storeAccessToken env now json w)) = calls w"
  by (simp_all add: storeAccessToken_def setSync_def setNumber_def Let_def)

text \<open>The only write of the access token never stores the empty string.\<close>

lemma storeAccessToken_never_blank:
  assumes "secureStorage w access_token_key \<noteq> Some []"
  shows "secureStorage (snd (storeAccessToken env now json w)) access_token_key \<noteq> Some []"
proof (cases "truthy (case json of None \<Rightarrow> None | Some j \<Rightarrow> access_token j)")
  case False
  then show ?thesis
    using assms by (simp add: storeAccessToken_def)
next
  case True
  then obtain tok where "(case json of None \<Rightarrow> None | Some j \<Rightarrow> access_token j) = Some tok"
    and "tok \<noteq> []"
    by (cases "case json of None \<Rightarrow> None | Some j \<Rightarrow> access_token j") simp_all
  then show ?thesis
    by (simp add: storeAccessToken_def setSync_def setNumber_def Let_def)
qed

text \<open>
  C10. When the token set has no access token (absent, or the empty string), the store
  step for the access token returns without writing, and after \<open>setTokens\<close> both the
  stored access token and the stored expiry are what they were before.
\<close>

theorem setTokens_without_access_token:
  assumes "\<not> truthy (access_token json)"
  shows "storeAccessToken env now (Some json) w = (None, w)
         \<and> secureStorage (snd (setTokens env now json w)) access_token_key
             = secureStorage w access_token_key
         \<and> applicationSettings (snd (setTokens env now json w)) access_token_expire_key
             = applicationSettings w access_token_expire_key"
proof (cases "storeRefreshToken (Some json) w")
  case (Inl e)
  then show ?thesis
    using assms by (simp add: setTokens_def storeAccessToken_falsy)
next
  case (Inr p)
  obtain r w1 where p: "p = (r, w1)"
    by (cases p)
  have "snd (setTokens env now json w) = w1"
    using Inr p assms by (simp add: setTokens_def storeAccessToken_falsy)
  then show ?thesis
    using storeRefreshToken_frame(1,2) [of "Some json" w r w1] Inr p assms
    by (simp add: storeAccessToken_falsy)
qed

theorem setTokens_without_access_token_witness:
  "\<not> truthy (access_token \<lparr>access_token = None, refresh_token = Some ''Y'', expires_in = Some 60\<rparr>)
   \<and> storeAccessToken offline 5 (Some \<lparr>access_token = None, refresh_token = Some ''Y'',
         expires_in = Some 60\<rparr>) populated_world = (None, populated_world)
   \<and> secureStorage (snd (setTokens offline 5 \<lparr>access_token = None, refresh_token = Some ''Y'',
         expires_in = Some 60\<rparr> populated_world)) access_token_key = Some ''A''
   \<and> applicationSettings (snd (setTokens offline 5 \<lparr>access_token = None,
         refresh_token = Some ''Y'', expires_in = Some 60\<rparr> populated_world))
         access_token_expire_key
       = Some (SNumber (Num 10))"
proof -
  have h: "\<not> truthy (access_token \<lparr>access_token = None, refresh_token = Some ''Y'',
      expires_in = Some 60\<rparr>)"
    by simp
  have before: "secureStorage populated_world access_token_key = Some ''A''"
    "applicationSettings populated_world access_token_expire_key = Some (SNumber (Num 10))"
    by (simp_all add: populated_world_def keys_distinct)
  show ?thesis
    using h before setTokens_without_access_token [OF h, of offline 5 populated_world]
    by simp
qed

lemma setTokens_stores_access_token:
  assumes "tok \<noteq> []"
  shows "secureStorage (snd (setTokens env t0 \<lparr>access_token = Some tok, refresh_token = rt,
            expires_in = secs\<rparr> w)) access_token_key = Some tok"
    and "applicationSettings (snd (setTokens env t0 \<lparr>access_token = Some tok,
            refresh_token = rt, expires_in = secs\<rparr> w)) access_token_expire_key
          = Some (SNumber (expire_time (LocalTZA env) t0 secs))"
  using assms
  by (simp_all add: setTokens_def storeRefreshToken_def storeAccessToken_def setSync_def
      setNumber_def Let_def)

lemma getAccessToken_cached:
  assumes "secureStorage w access_token_key = Some tok" and "tok \<noteq> []"
    and "applicationSettings w access_token_expire_key = Some (SNumber (Num e))"
    and "e \<noteq> 0" and "int t \<le> e"
  shows "getAccessToken env this t t' False w = (Inr (Some tok), w)"
  using assms by (simp add: getAccessToken_def getNumber_def getSync_def)

text \<open>
  Where the zone offset of the expiry's local time is the offset at the time of storing
  (a zone without transitions, or no transition in between), the stored expiry is the
  clock plus \<open>expires_in\<close> seconds.
\<close>

lemma expire_time_steady_offset:
  assumes "tz (int t0 + tz (int t0) True + 1000 * secs) False = tz (int t0) True"
    and "\<bar>int t0 + 1000 * secs\<bar> \<le> 8640000000000000"
  shows "expire_time tz t0 (Some secs) = Num (int t0 + 1000 * secs)"
  using assms by (simp add: Let_def TimeClip_def)

text \<open>
  The round trip for any token set with a non-empty access token: where the zone offset
  is steady, \<open>getAccessToken()\<close> at a clock \<open>t1\<close> not past \<open>t0\<close> plus the lifetime
  returns the token just stored and leaves the world alone.
\<close>

lemma setTokens_then_getAccessToken_steady_offset:
  assumes "tok \<noteq> []"
    and "LocalTZA env (int t0 + LocalTZA env (int t0) True + 1000 * secs) False
         = LocalTZA env (int t0) True"
    and "0 < t1" and "int t1 \<le> int t0 + 1000 * secs"
    and "int t0 + 1000 * secs \<le> 8640000000000000"
  shows "getAccessToken env this t1 t2 False
           (snd (setTokens env t0 \<lparr>access_token = Some tok, refresh_token = rt,
                                   expires_in = Some secs\<rparr> w))
         = (Inr (Some tok),
            snd (setTokens env t0 \<lparr>access_token = Some tok, refresh_token = rt,
                                   expires_in = Some secs\<rparr> w))"
proof -
  let ?w = "snd (setTokens env t0 \<lparr>access_token = Some tok, refresh_token = rt,
                                   expires_in = Some secs\<rparr> w)"
  have range: "\<bar>int t0 + 1000 * secs\<bar> \<le> 8640000000000000"
    using assms(3,4,5) by simp
  have stored: "secureStorage ?w access_token_key = Some tok"
    by (rule setTokens_stores_access_token(1) [OF assms(1)])
  have "applicationSettings ?w access_token_expire_key
          = Some (SNumber (expire_time (LocalTZA env) t0 (Some secs)))"
    by (rule setTokens_stores_access_token(2) [OF assms(1)])
  then have expiry: "applicationSettings ?w access_token_expire_key
          = Some (SNumber (Num (int t0 + 1000 * secs)))"
    by (simp only: expire_time_steady_offset [OF assms(2) range])
  have "int t0 + 1000 * secs \<noteq> 0"
    using assms(3,4) by simp
  then show ?thesis
    using getAccessToken_cached [OF stored assms(1) expiry _ assms(4)] by simp
qed

text \<open>
  C7 on the code, where the zone offset changes. In \<open>Antarctica/Troll\<close> at
  2023-10-29 01:30 UTC (\<open>1698543000000\<close>), half an hour after summer time ended,
  \<open>setTokens\<close> of \<open>{access_token: "X", refresh_token: "Y", expires_in: 3600}\<close> stores
  \<open>"X"\<close> with an expiry one hour before the clock: the local time 01:30 plus 3600 seconds
  is the repeated local time 02:30, which is read with the summer offset. An immediate
  \<open>getAccessToken()\<close> therefore does not return \<open>"X"\<close>; it takes the refresh path,
  which here throws since the token endpoint cannot be reached.
\<close>

theorem setTokens_then_getAccessToken_offset_change:
  "secureStorage (snd (setTokens troll_offline 1698543000000
        \<lparr>access_token = Some ''X'', refresh_token = Some ''Y'', expires_in = Some 3600\<rparr>
        empty_world)) access_token_key = Some ''X''
   \<and> applicationSettings (snd (setTokens troll_offline 1698543000000
        \<lparr>access_token = Some ''X'', refresh_token = Some ''Y'', expires_in = Some 3600\<rparr>
        empty_world)) access_token_expire_key
       = Some (SNumber (Num (1698543000000 - 3600000)))
   \<and> fst (getAccessToken troll_offline sample_session 1698543000000 1698543000000 False
        (snd (setTokens troll_offline 1698543000000
           \<lparr>access_token = Some ''X'', refresh_token = Some ''Y'', expires_in = Some 3600\<rparr>
           empty_world)))
       = Inl (Auth0Error ''Issue when fetching an access token using a refresh token''
               (Some (Error ''offline'')))"
proof -
  let ?w = "snd (setTokens troll_offline 1698543000000
        \<lparr>access_token = Some ''X'', refresh_token = Some ''Y'', expires_in = Some 3600\<rparr>
        empty_world)"
  have tz: "LocalTZA troll_offline = troll"
    by (simp add: troll_offline_def)
  have e: "expire_time troll 1698543000000 (Some 3600) = Num (1698543000000 - 3600000)"
    by (simp add: troll_def TimeClip_def Let_def)
  have stored: "secureStorage ?w access_token_key = Some ''X''"
    using setTokens_stores_access_token(1) [of "''X''" troll_offline 1698543000000 "Some ''Y''"
        "Some 3600" empty_world]
    by simp
  have expiry: "applicationSettings ?w access_token_expire_key
                  = Some (SNumber (Num (1698543000000 - 3600000)))"
    using setTokens_stores_access_token(2) [of "''X''" troll_offline 1698543000000 "Some ''Y''"
        "Some 3600" empty_world]
    by (simp only: tz e) simp
  have refresh: "secureStorage ?w refresh_token_key = Some ''Y''"
    by (simp add: setTokens_def storeRefreshToken_def storeAccessToken_def setSync_def
        setNumber_def Let_def keys_distinct)
  have req: "request troll_offline = (\<lambda>history req. Inl (Error ''offline''))"
    by (simp add: troll_offline_def offline_def)
  have "fst (getAccessToken troll_offline sample_session 1698543000000 1698543000000 False ?w)
       = Inl (Auth0Error ''Issue when fetching an access token using a refresh token''
               (Some (Error ''offline'')))"
    using stored expiry refresh
    by (simp add: getAccessToken_def fetchAccessToken_def getSync_def getNumber_def req Let_def)
  then show ?thesis
    using stored expiry by (intro conjI)
qed

section \<open>Properties of \<open>getAccessToken\<close>\<close>

lemma fetchAccessToken_world:
  assumes "fetchAccessToken env this t w = (r, w1)"
  shows "accessToken_next w1 = accessToken_next w"
    and "(\<exists>e. r = Inl e) \<longrightarrow> length (calls w) < length (calls w1)"
proof -
  show "accessToken_next w1 = accessToken_next w"
    using assms storeRefreshToken_frame(3)
    by (auto simp: fetchAccessToken_def Let_def record_call_def storeAccessToken_log
        split: if_splits sum.splits prod.splits)
  show "(\<exists>e. r = Inl e) \<longrightarrow> length (calls w) < length (calls w1)"
    using assms
    by (auto simp: fetchAccessToken_def Let_def record_call_def
        split: if_splits sum.splits prod.splits)
qed

lemma getAccessToken_refresh:
  assumes "\<not> (truthy (secureStorage w access_token_key)
              \<and> truthy_number (getNumber w access_token_expire_key)
              \<and> now_le t (getNumber w access_token_expire_key))"
  shows "getAccessToken env this t t' False w =
           (case fetchAccessToken env this t' w of
              (Inl e, w1) \<Rightarrow> (Inl e, w1)
            | (Inr a, w1) \<Rightarrow> (Inr a, next_accessToken a w1))"
    and "snd (getAccessToken env this t t' False w) \<noteq> w"
proof -
  show eq: "getAccessToken env this t t' False w =
           (case fetchAccessToken env this t' w of
              (Inl e, w1) \<Rightarrow> (Inl e, w1)
            | (Inr a, w1) \<Rightarrow> (Inr a, next_accessToken a w1))"
    using assms by (auto simp: getAccessToken_def getSync_def)
  obtain r w1 where f: "fetchAccessToken env this t' w = (r, w1)"
    by (cases "fetchAccessToken env this t' w")
  show "snd (getAccessToken env this t t' False w) \<noteq> w"
  proof (cases r)
    case (Inl e)
    then have "length (calls w) < length (calls (snd (getAccessToken env this t t' False w)))"
      using fetchAccessToken_world(2) [OF f] eq f by simp
    then show ?thesis
      by auto
  next
    case (Inr a)
    then have "length (accessToken_next (snd (getAccessToken env this t t' False w)))
               = Suc (length (accessToken_next w))"
      using fetchAccessToken_world(1) [OF f] eq f by (simp add: next_accessToken_def)
    then show ?thesis
      by auto
  qed
qed

lemma stored_token_condition:
  "(truthy (secureStorage w access_token_key)
      \<and> truthy_number (getNumber w access_token_expire_key)
      \<and> now_le t (getNumber w access_token_expire_key))
   = ((\<exists>tok. secureStorage w access_token_key = Some tok \<and> tok \<noteq> [])
      \<and> (\<exists>e. applicationSettings w access_token_expire_key = Some (SNumber (Num e))
               \<and> e \<noteq> 0 \<and> int t \<le> e))"
proof -
  have a: "truthy (secureStorage w access_token_key)
           = (\<exists>tok. secureStorage w access_token_key = Some tok \<and> tok \<noteq> [])"
    by (cases "secureStorage w access_token_key") simp_all
  have b: "(truthy_number (getNumber w access_token_expire_key)
            \<and> now_le t (getNumber w access_token_expire_key))
           = (\<exists>e. applicationSettings w access_token_expire_key = Some (SNumber (Num e))
                  \<and> e \<noteq> 0 \<and> int t \<le> e)"
  proof (cases "applicationSettings w access_token_expire_key")
    case None
    then show ?thesis
      by (simp add: getNumber_def)
  next
    case (Some v)
    show ?thesis
    proof (cases v)
      case (SNumber n)
      with Some show ?thesis
        by (cases n) (simp_all add: getNumber_def)
    qed (use Some in \<open>simp_all add: getNumber_def\<close>)
  qed
  show ?thesis
    using a b by blast
qed

text \<open>
  The guard of \<open>getAccessToken\<close> on the contents of the two stores, for any clock.
\<close>

lemma getAccessToken_guard:
  "((\<exists>tok. secureStorage w access_token_key = Some tok \<and> tok \<noteq> [])
      \<and> (\<exists>e. applicationSettings w access_token_expire_key = Some (SNumber (Num e))
               \<and> e \<noteq> 0 \<and> int t \<le> e)
     \<longrightarrow> getAccessToken env this t t' False w = (Inr (secureStorage w access_token_key), w))
   \<and> (\<not> ((\<exists>tok. secureStorage w access_token_key = Some tok \<and> tok \<noteq> [])
           \<and> (\<exists>e. applicationSettings w access_token_expire_key = Some (SNumber (Num e))
                    \<and> e \<noteq> 0 \<and> int t \<le> e))
     \<longrightarrow> getAccessToken env this t t' False w =
           (case fetchAccessToken env this t' w of
              (Inl e, w1) \<Rightarrow> (Inl e, w1)
            | (Inr a, w1) \<Rightarrow> (Inr a, next_accessToken a w1))
         \<and> snd (getAccessToken env this t t' False w) \<noteq> w)"
proof (intro conjI impI)
  assume "(\<exists>tok. secureStorage w access_token_key = Some tok \<and> tok \<noteq> [])
      \<and> (\<exists>e. applicationSettings w access_token_expire_key = Some (SNumber (Num e))
               \<and> e \<noteq> 0 \<and> int t \<le> e)"
  then obtain tok e where "secureStorage w access_token_key = Some tok" "tok \<noteq> []"
    "applicationSettings w access_token_expire_key = Some (SNumber (Num e))" "e \<noteq> 0" "int t \<le> e"
    by blast
  then show "getAccessToken env this t t' False w = (Inr (secureStorage w access_token_key), w)"
    using getAccessToken_cached [of w tok e t env this t'] by simp
next
  assume "\<not> ((\<exists>tok. secureStorage w access_token_key = Some tok \<and> tok \<noteq> [])
           \<and> (\<exists>e. applicationSettings w access_token_expire_key = Some (SNumber (Num e))
                    \<and> e \<noteq> 0 \<and> int t \<le> e))"
  then have n: "\<not> (truthy (secureStorage w access_token_key)
              \<and> truthy_number (getNumber w access_token_expire_key)
              \<and> now_le t (getNumber w access_token_expire_key))"
    using stored_token_condition [of w t] by blast
  show "getAccessToken env this t t' False w =
           (case fetchAccessToken env this t' w of
              (Inl e, w1) \<Rightarrow> (Inl e, w1)
            | (Inr a, w1) \<Rightarrow> (Inr a, next_accessToken a w1))"
    by (rule getAccessToken_refresh(1) [OF n])
next
  assume "\<not> ((\<exists>tok. secureStorage w access_token_key = Some tok \<and> tok \<noteq> [])
           \<and> (\<exists>e. applicationSettings w access_token_expire_key = Some (SNumber (Num e))
                    \<and> e \<noteq> 0 \<and> int t \<le> e))"
  then have n: "\<not> (truthy (secureStorage w access_token_key)
              \<and> truthy_number (getNumber w access_token_expire_key)
              \<and> now_le t (getNumber w access_token_expire_key))"
    using stored_token_condition [of w t] by blast
  show "snd (getAccessToken env this t t' False w) \<noteq> w"
    by (rule getAccessToken_refresh(2) [OF n])
qed

text \<open>With the clock past the epoch, an expiry that the clock has not passed is not zero.\<close>

lemma expiry_not_passed:
  assumes "0 < t"
  shows "(\<exists>e. applicationSettings w access_token_expire_key = Some (SNumber (Num e))
              \<and> e \<noteq> 0 \<and> int t \<le> e)
         = (\<exists>e. applicationSettings w access_token_expire_key = Some (SNumber (Num e))
              \<and> int t \<le> e)"
proof -
  have "int t \<le> e \<Longrightarrow> e \<noteq> 0" for e
    using assms by auto
  then show ?thesis
    by blast
qed

text \<open>
  C2. A token is a non-empty string, the clock reads a time after the epoch. For every
  state of the two stores, \<open>getAccessToken()\<close> returns the stored access token, leaving
  the world as it is, when a token is stored, an expiry is stored and the clock is at
  most the stored expiry. In every other case (no stored token, no expiry, or the clock
  past the expiry) it takes the refresh path instead: its result is that of
  \<open>fetchAccessToken\<close>, followed by a push on \<open>accessToken$\<close> when that did not throw,
  and the world is never left as it was.
\<close>

theorem getAccessToken_stored_or_refresh:
  assumes "0 < t"
  shows "((\<exists>tok. secureStorage w access_token_key = Some tok \<and> tok \<noteq> [])
            \<and> (\<exists>e. applicationSettings w access_token_expire_key = Some (SNumber (Num e))
                     \<and> int t \<le> e)
           \<longrightarrow> getAccessToken env this t t' False w
                 = (Inr (secureStorage w access_token_key), w))
         \<and> (\<not> ((\<exists>tok. secureStorage w access_token_key = Some tok \<and> tok \<noteq> [])
                 \<and> (\<exists>e. applicationSettings w access_token_expire_key = Some (SNumber (Num e))
                          \<and> int t \<le> e))
           \<longrightarrow> getAccessToken env this t t' False w =
                 (case fetchAccessToken env this t' w of
                    (Inl e, w1) \<Rightarrow> (Inl e, w1)
                  | (Inr a, w1) \<Rightarrow> (Inr a, next_accessToken a w1))
               \<and> snd (getAccessToken env this t t' False w) \<noteq> w)"
  using getAccessToken_guard [of w t env this t']
  by (simp only: expiry_not_passed [OF assms])

theorem getAccessToken_stored_or_refresh_witness:
  "(0::nat) < 5
   \<and> (\<exists>tok. secureStorage populated_world access_token_key = Some tok \<and> tok \<noteq> [])
   \<and> (\<exists>e. applicationSettings populated_world access_token_expire_key = Some (SNumber (Num e))
            \<and> int 5 \<le> e)
   \<and> getAccessToken offline sample_session 5 6 False populated_world
       = (Inr (Some ''A''), populated_world)
   \<and> (0::nat) < 11
   \<and> \<not> ((\<exists>tok. secureStorage populated_world access_token_key = Some tok \<and> tok \<noteq> [])
          \<and> (\<exists>e. applicationSettings populated_world access_token_expire_key
                     = Some (SNumber (Num e)) \<and> int 11 \<le> e))
   \<and> getAccessToken offline sample_session 11 12 False populated_world =
       (case fetchAccessToken offline sample_session 12 populated_world of
          (Inl e, w1) \<Rightarrow> (Inl e, w1)
        | (Inr a, w1) \<Rightarrow> (Inr a, next_accessToken a w1))
   \<and> snd (getAccessToken offline sample_session 11 12 False populated_world) \<noteq> populated_world"
proof -
  have p5: "(0::nat) < 5" and p11: "(0::nat) < 11"
    by simp_all
  have tok: "secureStorage populated_world access_token_key = Some ''A''"
    and expiry: "applicationSettings populated_world access_token_expire_key
                  = Some (SNumber (Num 10))"
    by (simp_all add: populated_world_def keys_distinct)
  have a: "\<exists>tok. secureStorage populated_world access_token_key = Some tok \<and> tok \<noteq> []"
    using tok by simp
  have b: "\<exists>e. applicationSettings populated_world access_token_expire_key = Some (SNumber (Num e))
            \<and> int 5 \<le> e"
    using expiry by simp
  have cached: "getAccessToken offline sample_session 5 6 False populated_world
       = (Inr (Some ''A''), populated_world)"
    using a b tok
      getAccessToken_stored_or_refresh [OF p5, of populated_world offline sample_session 6]
    by simp
  have late: "\<not> ((\<exists>tok. secureStorage populated_world access_token_key = Some tok \<and> tok \<noteq> [])
          \<and> (\<exists>e. applicationSettings populated_world access_token_expire_key
                     = Some (SNumber (Num e)) \<and> int 11 \<le> e))"
    using expiry by simp
  have refreshed: "getAccessToken offline sample_session 11 12 False populated_world =
       (case fetchAccessToken offline sample_session 12 populated_world of
          (Inl e, w1) \<Rightarrow> (Inl e, w1)
        | (Inr a, w1) \<Rightarrow> (Inr a, next_accessToken a w1))
     \<and> snd (getAccessToken offline sample_session 11 12 False populated_world) \<noteq> populated_world"
    using late
      getAccessToken_stored_or_refresh [OF p11, of populated_world offline sample_session 12]
    by blast
  show ?thesis
    using p5 p11 a b cached late refreshed by blast
qed

section \<open>Properties of \<open>signIn\<close> and \<open>logOut\<close>\<close>

lemma clearStorage_clears:
  "secureStorage (clearStorage w) refresh_token_key = None"
  "secureStorage (clearStorage w) access_token_key = None"
  "applicationSettings (clearStorage w) access_token_expire_key = None"
  "applicationSettings (clearStorage w) user_info_key = None"
  "applicationSettings (clearStorage w) user_logged_in_key = None"
  by (simp_all add: clearStorage_def removeSync_def remove_setting_def next_accessToken_def)

lemma clearStorage_calls: "calls (clearStorage w) = calls w"
  by (simp add: clearStorage_def removeSync_def remove_setting_def next_accessToken_def)

text \<open>
  C1. Every run of \<open>signIn\<close> that throws throws the sign-in error wrapping the cause,
  and ends with the refresh token, the access token, the expiry, the cached user info
  and the cached logged-in flag all absent.
\<close>

theorem signIn_failure_clears_storage:
  assumes "signIn env this now loginHint connection w = (Inl e, w')"
  shows "(\<exists>cause. e = Auth0Error ''Error during sign in'' (Some cause))
         \<and> secureStorage w' refresh_token_key = None
         \<and> secureStorage w' access_token_key = None
         \<and> applicationSettings w' access_token_expire_key = None
         \<and> applicationSettings w' user_info_key = None
         \<and> applicationSettings w' user_logged_in_key = None"
proof -
  obtain r w1 where body: "signIn_try env this now loginHint connection w = (r, w1)"
    by (cases "signIn_try env this now loginHint connection w")
  show ?thesis
  proof (cases r)
    case (Inl cause)
    then have "e = Auth0Error ''Error during sign in'' (Some cause)" and "w' = clearStorage w1"
      using assms body by (simp_all add: signIn_def)
    then show ?thesis
      by (simp add: clearStorage_clears)
  next
    case (Inr b)
    then have False
      using assms body by (simp add: signIn_def)
    then show ?thesis ..
  qed
qed

theorem signIn_failure_clears_storage_witness:
  "signIn (scripted \<lparr>rtype = success, url = Some ''app://cb?code=abc''\<rparr>
             (Inl (Error ''exchange failed''))) sample_session 0 None None populated_world
     = (Inl (Auth0Error ''Error during sign in'' (Some (Error ''exchange failed''))),
        snd (signIn (scripted \<lparr>rtype = success, url = Some ''app://cb?code=abc''\<rparr>
             (Inl (Error ''exchange failed''))) sample_session 0 None None populated_world))
   \<and> secureStorage populated_world refresh_token_key = Some ''R''
   \<and> secureStorage (snd (signIn (scripted \<lparr>rtype = success, url = Some ''app://cb?code=abc''\<rparr>
             (Inl (Error ''exchange failed''))) sample_session 0 None None populated_world))
        refresh_token_key = None
   \<and> secureStorage (snd (signIn (scripted \<lparr>rtype = success, url = Some ''app://cb?code=abc''\<rparr>
             (Inl (Error ''exchange failed''))) sample_session 0 None None populated_world))
        access_token_key = None
   \<and> applicationSettings (snd (signIn (scripted \<lparr>rtype = success, url = Some ''app://cb?code=abc''\<rparr>
             (Inl (Error ''exchange failed''))) sample_session 0 None None populated_world))
        access_token_expire_key = None
   \<and> applicationSettings (snd (signIn (scripted \<lparr>rtype = success, url = Some ''app://cb?code=abc''\<rparr>
             (Inl (Error ''exchange failed''))) sample_session 0 None None populated_world))
        user_info_key = None
   \<and> applicationSettings (snd (signIn (scripted \<lparr>rtype = success, url = Some ''app://cb?code=abc''\<rparr>
             (Inl (Error ''exchange failed''))) sample_session 0 None None populated_world))
        user_logged_in_key = None"
proof -
  let ?env = "scripted \<lparr>rtype = success, url = Some ''app://cb?code=abc''\<rparr>
                (Inl (Error ''exchange failed''))"
  let ?run = "signIn ?env sample_session 0 None None populated_world"
  have "fst ?run = Inl (Auth0Error ''Error during sign in'' (Some (Error ''exchange failed'')))"
    by (simp add: signIn_def signIn_try_def prepareSignInAuthUrl_def fetchCodeInAppBrowser_def
        call_openAuth_def split_code_def fetchRefreshToken_def scripted_def sample_session_def
        sample_config_def Let_def)
  then have h: "?run = (Inl (Auth0Error ''Error during sign in'' (Some (Error ''exchange failed''))),
                        snd ?run)"
    by (simp add: prod_eq_iff)
  have before: "secureStorage populated_world refresh_token_key = Some ''R''"
    by (simp add: populated_world_def keys_distinct)
  show ?thesis
    using h before signIn_failure_clears_storage [OF h] by blast
qed

text \<open>
  C6. In a run of \<open>logOut\<close> whose logout URL is built, whose browser is available and
  whose browser session returns a result: on \<open>cancel\<close> the answer is \<open>false\<close> and both
  stores are as before; on \<open>success\<close> the answer is \<open>true\<close> and the five keys are absent.
\<close>

theorem logOut_cancel_or_success:
  assumes "prepareLogOutAuthUrl this = Inr logout"
    and "isAvailable env (calls w) = Inr True"
    and "openAuth env (calls w @ [IsAvailable]) logout
           (redirectUri (auth0Config (config this))) (Some (browserConfig (config this)))
         = Inr response"
  shows "(rtype response = cancel \<longrightarrow>
            fst (logOut env this w) = Inr False
            \<and> secureStorage (snd (logOut env this w)) = secureStorage w
            \<and> applicationSettings (snd (logOut env this w)) = applicationSettings w)
         \<and> (rtype response = success \<longrightarrow>
            fst (logOut env this w) = Inr True
            \<and> secureStorage (snd (logOut env this w)) refresh_token_key = None
            \<and> secureStorage (snd (logOut env this w)) access_token_key = None
            \<and> applicationSettings (snd (logOut env this w)) access_token_expire_key = None
            \<and> applicationSettings (snd (logOut env this w)) user_info_key = None
            \<and> applicationSettings (snd (logOut env this w)) user_logged_in_key = None)"
proof (intro conjI impI)
  assume c: "rtype response = cancel"
  have run: "logOut env this w
             = (Inr False, record_call (OpenAuth logout (redirectUri (auth0Config (config this)))
                  (Some (browserConfig (config this)))) (record_call IsAvailable w))"
    using assms c by (simp add: logOut_def call_openAuth_def record_call_def Let_def)
  show "fst (logOut env this w) = Inr False"
    and "secureStorage (snd (logOut env this w)) = secureStorage w"
    and "applicationSettings (snd (logOut env this w)) = applicationSettings w"
    unfolding run by (simp_all add: record_call_def)
next
  assume s: "rtype response = success"
  have run: "logOut env this w
             = (Inr True, clearStorage (record_call (OpenAuth logout
                  (redirectUri (auth0Config (config this)))
                  (Some (browserConfig (config this)))) (record_call IsAvailable w)))"
    using assms s by (simp add: logOut_def call_openAuth_def record_call_def Let_def)
  show "fst (logOut env this w) = Inr True"
    and "secureStorage (snd (logOut env this w)) refresh_token_key = None"
    and "secureStorage (snd (logOut env this w)) access_token_key = None"
    and "applicationSettings (snd (logOut env this w)) access_token_expire_key = None"
    and "applicationSettings (snd (logOut env this w)) user_info_key = None"
    and "applicationSettings (snd (logOut env this w)) user_logged_in_key = None"
    unfolding run by (simp_all add: clearStorage_clears)
qed

lemma sample_logout_url:
  "prepareLogOutAuthUrl sample_session
   = Inr ''https://t.auth0.com/v2/logout?client_id=c&returnTo=app%3A%2F%2Fcb''"
  by (simp add: prepareLogOutAuthUrl_def logOut_params_def sample_session_def sample_config_def
      objectToQueryParams_def keyvalue_def encodeURIComponent_def encode_char_def
      unreserved_def alphanumeric_def hex_digit_def Let_def)

theorem logOut_cancel_or_success_witness:
  "prepareLogOutAuthUrl sample_session
     = Inr ''https://t.auth0.com/v2/logout?client_id=c&returnTo=app%3A%2F%2Fcb''
   \<and> isAvailable (scripted \<lparr>rtype = cancel, url = None\<rparr> (Inl (Error ''unused'')))
         (calls populated_world) = Inr True
   \<and> openAuth (scripted \<lparr>rtype = cancel, url = None\<rparr> (Inl (Error ''unused'')))
         (calls populated_world @ [IsAvailable])
         ''https://t.auth0.com/v2/logout?client_id=c&returnTo=app%3A%2F%2Fcb''
         (redirectUri (auth0Config (config sample_session)))
         (Some (browserConfig (config sample_session)))
       = Inr \<lparr>rtype = cancel, url = None\<rparr>
   \<and> rtype \<lparr>rtype = cancel, url = None\<rparr> = cancel
   \<and> fst (logOut (scripted \<lparr>rtype = cancel, url = None\<rparr> (Inl (Error ''unused'')))
            sample_session populated_world) = Inr False
   \<and> secureStorage (snd (logOut (scripted \<lparr>rtype = cancel, url = None\<rparr> (Inl (Error ''unused'')))
            sample_session populated_world)) = secureStorage populated_world
   \<and> applicationSettings (snd (logOut (scripted \<lparr>rtype = cancel, url = None\<rparr>
            (Inl (Error ''unused''))) sample_session populated_world))
       = applicationSettings populated_world
   \<and> isAvailable (scripted \<lparr>rtype = success, url = Some ''app://cb''\<rparr> (Inl (Error ''unused'')))
         (calls populated_world) = Inr True
   \<and> openAuth (scripted \<lparr>rtype = success, url = Some ''app://cb''\<rparr> (Inl (Error ''unused'')))
         (calls populated_world @ [IsAvailable])
         ''https://t.auth0.com/v2/logout?client_id=c&returnTo=app%3A%2F%2Fcb''
         (redirectUri (auth0Config (config sample_session)))
         (Some (browserConfig (config sample_session)))
       = Inr \<lparr>rtype = success, url = Some ''app://cb''\<rparr>
   \<and> rtype \<lparr>rtype = success, url = Some ''app://cb''\<rparr> = success
   \<and> fst (logOut (scripted \<lparr>rtype = success, url = Some ''app://cb''\<rparr> (Inl (Error ''unused'')))
            sample_session populated_world) = Inr True
   \<and> secureStorage (snd (logOut (scripted \<lparr>rtype = success, url = Some ''app://cb''\<rparr>
            (Inl (Error ''unused''))) sample_session populated_world)) refresh_token_key = None
   \<and> secureStorage (snd (logOut (scripted \<lparr>rtype = success, url = Some ''app://cb''\<rparr>
            (Inl (Error ''unused''))) sample_session populated_world)) access_token_key = None
   \<and> applicationSettings (snd (logOut (scripted \<lparr>rtype = success, url = Some ''app://cb''\<rparr>
            (Inl (Error ''unused''))) sample_session populated_world))
        access_token_expire_key = None
   \<and> applicationSettings (snd (logOut (scripted \<lparr>rtype = success, url = Some ''app://cb''\<rparr>
            (Inl (Error ''unused''))) sample_session populated_world)) user_info_key = None
   \<and> applicationSettings (snd (logOut (scripted \<lparr>rtype = success, url = Some ''app://cb''\<rparr>
            (Inl (Error ''unused''))) sample_session populated_world)) user_logged_in_key = None"
proof -
  let ?u = "''https://t.auth0.com/v2/logout?client_id=c&returnTo=app%3A%2F%2Fcb''"
  let ?c = "scripted \<lparr>rtype = cancel, url = None\<rparr> (Inl (Error ''unused''))"
  let ?s = "scripted \<lparr>rtype = success, url = Some ''app://cb''\<rparr> (Inl (Error ''unused''))"
  have c1: "isAvailable ?c (calls populated_world) = Inr True"
    and c2: "openAuth ?c (calls populated_world @ [IsAvailable]) ?u
               (redirectUri (auth0Config (config sample_session)))
               (Some (browserConfig (config sample_session)))
             = Inr \<lparr>rtype = cancel, url = None\<rparr>"
    and s1: "isAvailable ?s (calls populated_world) = Inr True"
    and s2: "openAuth ?s (calls populated_world @ [IsAvailable]) ?u
               (redirectUri (auth0Config (config sample_session)))
               (Some (browserConfig (config sample_session)))
             = Inr \<lparr>rtype = success, url = Some ''app://cb''\<rparr>"
    by (simp_all add: scripted_def)
  have r: "rtype \<lparr>rtype = cancel, url = None\<rparr> = cancel"
    "rtype \<lparr>rtype = success, url = Some ''app://cb''\<rparr> = success"
    by simp_all
  show ?thesis
    using sample_logout_url c1 c2 s1 s2 r
      logOut_cancel_or_success [OF sample_logout_url c1 c2]
      logOut_cancel_or_success [OF sample_logout_url s1 s2]
    by blast
qed

text \<open>
  C5. With an audience, client id or redirect URI that is absent or empty,
  \<open>prepareSignInAuthUrl\<close> throws the missing-fields error, and a \<open>signIn\<close> run ends
  without any call to the browser or the network. With a client id or redirect URI that
  is absent or empty, \<open>prepareLogOutAuthUrl\<close> throws the same error, and \<open>logOut\<close>
  throws it with the world untouched.
\<close>

theorem missing_configuration_throws_first:
  "(\<not> truthy (audience (auth0Config (config this)))
      \<or> \<not> truthy (clientId (auth0Config (config this)))
      \<or> \<not> truthy (redirectUri (auth0Config (config this)))
     \<longrightarrow> prepareSignInAuthUrl this loginHint connection screenHint = Inl missing_fields
         \<and> fst (signIn env this now loginHint connection w)
             = Inl (Auth0Error ''Error during sign in'' (Some missing_fields))
         \<and> calls (snd (signIn env this now loginHint connection w)) = calls w)
   \<and> (\<not> truthy (clientId (auth0Config (config this)))
      \<or> \<not> truthy (redirectUri (auth0Config (config this)))
     \<longrightarrow> prepareLogOutAuthUrl this = Inl missing_fields
         \<and> logOut env this w = (Inl missing_fields, w))"
proof (intro conjI impI)
  assume bad: "\<not> truthy (audience (auth0Config (config this)))
      \<or> \<not> truthy (clientId (auth0Config (config this)))
      \<or> \<not> truthy (redirectUri (auth0Config (config this)))"
  then show url: "prepareSignInAuthUrl this loginHint connection screenHint = Inl missing_fields"
    by (auto simp: prepareSignInAuthUrl_def Let_def)
  have "prepareSignInAuthUrl this loginHint connection None = Inl missing_fields"
    using bad by (auto simp: prepareSignInAuthUrl_def Let_def)
  then have run: "signIn env this now loginHint connection w
                  = (Inl (Auth0Error ''Error during sign in'' (Some missing_fields)), clearStorage w)"
    by (simp add: signIn_def signIn_try_def)
  show "fst (signIn env this now loginHint connection w)
          = Inl (Auth0Error ''Error during sign in'' (Some missing_fields))"
    and "calls (snd (signIn env this now loginHint connection w)) = calls w"
    unfolding run by (simp_all add: clearStorage_calls)
next
  assume bad: "\<not> truthy (clientId (auth0Config (config this)))
      \<or> \<not> truthy (redirectUri (auth0Config (config this)))"
  then show url: "prepareLogOutAuthUrl this = Inl missing_fields"
    by (auto simp: prepareLogOutAuthUrl_def Let_def)
  then show "logOut env this w = (Inl missing_fields, w)"
    by (simp add: logOut_def)
qed

theorem missing_configuration_throws_first_witness:
  "\<not> truthy (clientId (auth0Config (config unconfigured_session)))
   \<and> prepareSignInAuthUrl unconfigured_session None None None = Inl missing_fields
   \<and> fst (signIn offline unconfigured_session 0 None None populated_world)
       = Inl (Auth0Error ''Error during sign in'' (Some missing_fields))
   \<and> calls (snd (signIn offline unconfigured_session 0 None None populated_world))
       = calls populated_world
   \<and> prepareLogOutAuthUrl unconfigured_session = Inl missing_fields
   \<and> logOut offline unconfigured_session populated_world = (Inl missing_fields, populated_world)"
proof -
  have bad: "\<not> truthy (clientId (auth0Config (config unconfigured_session)))"
    by (simp add: unconfigured_session_def)
  show ?thesis
    using bad
      missing_configuration_throws_first [of unconfigured_session None None None offline 0
        populated_world]
    by blast
qed

section \<open>Properties of the code extraction\<close>

lemma split_js_not_Nil: "split_js sep u \<noteq> []"
  by (induction u) (auto split: list.splits)

lemma split_js_no_sep: "sep \<notin> set x \<Longrightarrow> split_js sep x = [x]"
  by (induction x) auto

lemma split_js_append_sep:
  "sep \<notin> set x \<Longrightarrow> split_js sep (x @ sep # rest) = x # split_js sep rest"
proof (induction x)
  case Nil
  show ?case by simp
next
  case (Cons c x)
  then have "c \<noteq> sep" and "split_js sep (x @ sep # rest) = x # split_js sep rest"
    by auto
  then show ?case by simp
qed

lemma split_at_first:
  "sep \<in> set u \<Longrightarrow> u = takeWhile (\<lambda>c. c \<noteq> sep) u @ sep # tl (dropWhile (\<lambda>c. c \<noteq> sep) u)"
  by (induction u) auto

lemma split_js_head:
  "\<exists>more. split_js sep v = takeWhile (\<lambda>c. c \<noteq> sep) v # more"
proof (cases "sep \<in> set v")
  case True
  have "sep \<notin> set (takeWhile (\<lambda>c. c \<noteq> sep) v)"
    by (auto dest: set_takeWhileD)
  then have "split_js sep (takeWhile (\<lambda>c. c \<noteq> sep) v @ sep # tl (dropWhile (\<lambda>c. c \<noteq> sep) v))
             = takeWhile (\<lambda>c. c \<noteq> sep) v # split_js sep (tl (dropWhile (\<lambda>c. c \<noteq> sep) v))"
    by (rule split_js_append_sep)
  with arg_cong [where f = "split_js sep", OF split_at_first [OF True]]
  have "split_js sep v
             = takeWhile (\<lambda>c. c \<noteq> sep) v # split_js sep (tl (dropWhile (\<lambda>c. c \<noteq> sep) v))"
    by (rule trans)
  then show ?thesis
    by blast
next
  case False
  then have tw: "takeWhile (\<lambda>c. c \<noteq> sep) v = v"
    by (auto simp: takeWhile_eq_all_conv)
  have "split_js sep v = takeWhile (\<lambda>c. c \<noteq> sep) v # []"
    unfolding tw by (rule split_js_no_sep [OF False])
  then show ?thesis
    by blast
qed

lemma split_code_between:
  "split_code u =
     (if CHR ''='' \<in> set u
      then Some (takeWhile (\<lambda>c. c \<noteq> CHR ''='') (tl (dropWhile (\<lambda>c. c \<noteq> CHR ''='') u)))
      else None)"
proof (cases "CHR ''='' \<in> set u")
  case True
  let ?rest = "tl (dropWhile (\<lambda>c. c \<noteq> CHR ''='') u)"
  have "CHR ''='' \<notin> set (takeWhile (\<lambda>c. c \<noteq> CHR ''='') u)"
    by (auto dest: set_takeWhileD)
  then have "split_js (CHR ''='') (takeWhile (\<lambda>c. c \<noteq> CHR ''='') u @ CHR ''='' # ?rest)
             = takeWhile (\<lambda>c. c \<noteq> CHR ''='') u # split_js (CHR ''='') ?rest"
    by (rule split_js_append_sep)
  with arg_cong [where f = "split_js (CHR ''='')", OF split_at_first [OF True]]
  have whole: "split_js (CHR ''='') u
             = takeWhile (\<lambda>c. c \<noteq> CHR ''='') u # split_js (CHR ''='') ?rest"
    by (rule trans)
  obtain more where "split_js (CHR ''='') ?rest = takeWhile (\<lambda>c. c \<noteq> CHR ''='') ?rest # more"
    using split_js_head by blast
  then show ?thesis
    using True whole by (simp add: split_code_def)
next
  case False
  then show ?thesis
    by (simp add: split_code_def split_js_no_sep)
qed

lemma fetchCodeInAppBrowser_direct:
  assumes "openAuth env (calls w) authorizeUrl (redirectUri (auth0Config (config this))) None
           = Inr response"
    and "rtype response = success" and "url response = Some u" and "u \<noteq> []"
    and "\<not> includes_js u ''/passwordless''"
  shows "fetchCodeInAppBrowser env this authorizeUrl w
         = (Inr (split_code u),
            record_call (OpenAuth authorizeUrl (redirectUri (auth0Config (config this))) None) w)"
  using assms
  by (simp add: fetchCodeInAppBrowser_def call_openAuth_def Let_def del: includes_js.simps)

text \<open>
  When the first callback carries the passwordless marker, the browser is opened again
  with the email connection, and the code is taken from the second callback the same way.
\<close>

lemma fetchCodeInAppBrowser_passwordless:
  assumes "openAuth env (calls w) authorizeUrl (redirectUri (auth0Config (config this))) None
           = Inr response"
    and "rtype response = success" and "url response = Some u1"
    and "includes_js u1 ''/passwordless''"
    and "login_hint_of env u1 = Inr loginHint"
    and "prepareSignInAuthUrl this loginHint (Some ''email'') None = Inr authorizeUrl2"
    and "openAuth env
           (calls w @ [OpenAuth authorizeUrl (redirectUri (auth0Config (config this))) None])
           authorizeUrl2 (redirectUri (auth0Config (config this))) None
         = Inr response2"
    and "rtype response2 = success" and "url response2 = Some u" and "u \<noteq> []"
  shows "fst (fetchCodeInAppBrowser env this authorizeUrl w) = Inr (split_code u)"
  using assms
  by (simp add: fetchCodeInAppBrowser_def call_openAuth_def record_call_def Let_def
      del: includes_js.simps)

text \<open>
  C3, as the code has it. When the browser session returns a success result whose
  callback URL \<open>u\<close> is non-empty and carries no passwordless marker, the extracted code
  is \<open>u.split('=')[1]\<close>: the part of \<open>u\<close> between its first and its second \<open>=\<close> (up to
  the end when there is one \<open>=\<close> only), and nothing at all when \<open>u\<close> has no \<open>=\<close>. It is
  the whole substring after the first \<open>=\<close> when that substring has no further \<open>=\<close>.
\<close>

theorem fetchCodeInAppBrowser_code_between_equals:
  assumes "openAuth env (calls w) authorizeUrl (redirectUri (auth0Config (config this))) None
           = Inr response"
    and "rtype response = success" and "url response = Some u" and "u \<noteq> []"
    and "\<not> includes_js u ''/passwordless''"
  shows "fst (fetchCodeInAppBrowser env this authorizeUrl w) =
           Inr (if CHR ''='' \<in> set u
                then Some (takeWhile (\<lambda>c. c \<noteq> CHR ''='')
                             (tl (dropWhile (\<lambda>c. c \<noteq> CHR ''='') u)))
                else None)
         \<and> (CHR ''='' \<in> set u \<and> CHR ''='' \<notin> set (tl (dropWhile (\<lambda>c. c \<noteq> CHR ''='') u))
            \<longrightarrow> fst (fetchCodeInAppBrowser env this authorizeUrl w)
                  = Inr (Some (tl (dropWhile (\<lambda>c. c \<noteq> CHR ''='') u))))"
proof -
  let ?after = "tl (dropWhile (\<lambda>c. c \<noteq> CHR ''='') u)"
  have run: "fst (fetchCodeInAppBrowser env this authorizeUrl w) = Inr (split_code u)"
    by (simp only: fetchCodeInAppBrowser_direct [OF assms] fst_conv)
  have first: "fst (fetchCodeInAppBrowser env this authorizeUrl w) =
           Inr (if CHR ''='' \<in> set u
                then Some (takeWhile (\<lambda>c. c \<noteq> CHR ''='') ?after)
                else None)"
    by (simp only: run split_code_between [of u])
  have second: "fst (fetchCodeInAppBrowser env this authorizeUrl w) = Inr (Some ?after)"
    if "CHR ''='' \<in> set u" and "CHR ''='' \<notin> set ?after"
  proof -
    have whole: "takeWhile (\<lambda>c. c \<noteq> CHR ''='') ?after = ?after"
      using that(2) by (auto simp: takeWhile_eq_all_conv)
    show ?thesis
      by (simp only: first that(1) whole if_True)
  qed
  show ?thesis
  proof (intro conjI impI)
    show "fst (fetchCodeInAppBrowser env this authorizeUrl w) =
           Inr (if CHR ''='' \<in> set u
                then Some (takeWhile (\<lambda>c. c \<noteq> CHR ''='') ?after)
                else None)"
      by (rule first)
  next
    assume "CHR ''='' \<in> set u \<and> CHR ''='' \<notin> set ?after"
    then have "CHR ''='' \<in> set u" and "CHR ''='' \<notin> set ?after"
      by (rule conjunct1, rule conjunct2)
    then show "fst (fetchCodeInAppBrowser env this authorizeUrl w) = Inr (Some ?after)"
      by (rule second)
  qed
qed

theorem fetchCodeInAppBrowser_code_between_equals_witness:
  "openAuth (scripted \<lparr>rtype = success, url = Some ''app://cb?code=abc''\<rparr> (Inl (Error ''unused'')))
      (calls empty_world) ''https://t.auth0.com/authorize''
      (redirectUri (auth0Config (config sample_session))) None
     = Inr \<lparr>rtype = success, url = Some ''app://cb?code=abc''\<rparr>
   \<and> rtype \<lparr>rtype = success, url = Some ''app://cb?code=abc''\<rparr> = success
   \<and> url \<lparr>rtype = success, url = Some ''app://cb?code=abc''\<rparr> = Some ''app://cb?code=abc''
   \<and> ''app://cb?code=abc'' \<noteq> []
   \<and> \<not> includes_js ''app://cb?code=abc'' ''/passwordless''
   \<and> CHR ''='' \<in> set ''app://cb?code=abc''
   \<and> CHR ''='' \<notin> set (tl (dropWhile (\<lambda>c. c \<noteq> CHR ''='') ''app://cb?code=abc''))
   \<and> fst (fetchCodeInAppBrowser
             (scripted \<lparr>rtype = success, url = Some ''app://cb?code=abc''\<rparr> (Inl (Error ''unused'')))
             sample_session ''https://t.auth0.com/authorize'' empty_world)
       = Inr (Some ''abc'')"
proof -
  let ?r = "\<lparr>rtype = success, url = Some ''app://cb?code=abc''\<rparr>"
  let ?env = "scripted ?r (Inl (Error ''unused''))"
  have h1: "openAuth ?env (calls empty_world) ''https://t.auth0.com/authorize''
              (redirectUri (auth0Config (config sample_session))) None = Inr ?r"
    by (simp add: scripted_def)
  have h2: "rtype ?r = success" and h3: "url ?r = Some ''app://cb?code=abc''"
    by simp_all
  have h4: "''app://cb?code=abc'' \<noteq> []"
    by simp
  have h5: "\<not> includes_js ''app://cb?code=abc'' ''/passwordless''"
    by simp
  have h6: "CHR ''='' \<in> set ''app://cb?code=abc''"
    and h7: "CHR ''='' \<notin> set (tl (dropWhile (\<lambda>c. c \<noteq> CHR ''='') ''app://cb?code=abc''))"
    and after: "tl (dropWhile (\<lambda>c. c \<noteq> CHR ''='') ''app://cb?code=abc'') = ''abc''"
    by simp_all
  have "fst (fetchCodeInAppBrowser ?env sample_session ''https://t.auth0.com/authorize''
               empty_world)
        = Inr (Some (tl (dropWhile (\<lambda>c. c \<noteq> CHR ''='') ''app://cb?code=abc'')))"
    using fetchCodeInAppBrowser_code_between_equals [OF h1 h2 h3 h4 h5] h6 h7
    by (elim conjE impE) (rule conjI)
  then have "fst (fetchCodeInAppBrowser ?env sample_session ''https://t.auth0.com/authorize''
               empty_world) = Inr (Some ''abc'')"
    by (simp only: after)
  then show ?thesis
    using h1 h2 h3 h4 h5 h6 h7 by (intro conjI)
qed

text \<open>
  C3 as stated fails on a callback URL with a second \<open>=\<close>: the extracted code stops
  before it, while the substring after the first \<open>=\<close> runs to the end of the URL.
\<close>

theorem fetchCodeInAppBrowser_second_equals_counterexample:
  "fst (fetchCodeInAppBrowser
          (scripted \<lparr>rtype = success, url = Some ''app://cb?code=abc&state=xyz''\<rparr>
             (Inl (Error ''unused'')))
          sample_session ''https://t.auth0.com/authorize'' empty_world)
     = Inr (Some ''abc&state'')
   \<and> tl (dropWhile (\<lambda>c. c \<noteq> CHR ''='') ''app://cb?code=abc&state=xyz'') = ''abc&state=xyz''
   \<and> fst (fetchCodeInAppBrowser
          (scripted \<lparr>rtype = success, url = Some ''app://cb?code=abc&state=xyz''\<rparr>
             (Inl (Error ''unused'')))
          sample_session ''https://t.auth0.com/authorize'' empty_world)
     \<noteq> Inr (Some (tl (dropWhile (\<lambda>c. c \<noteq> CHR ''='') ''app://cb?code=abc&state=xyz'')))"
  by (simp add: fetchCodeInAppBrowser_def call_openAuth_def scripted_def split_code_def Let_def)

section \<open>Properties of the authorize URL\<close>

lemma hex_digit_plain: "hex_digit n \<noteq> CHR ''&'' \<and> hex_digit n \<noteq> CHR ''=''"
proof -
  have "n mod 16 < length ''0123456789ABCDEF''"
    by simp
  then have "''0123456789ABCDEF'' ! (n mod 16) \<in> set ''0123456789ABCDEF''"
    by (rule nth_mem)
  then have "hex_digit n \<in> set ''0123456789ABCDEF''"
    by (simp only: hex_digit_def)
  then show ?thesis
    by auto
qed

lemma separators_reserved: "\<not> unreserved (CHR ''&'')" "\<not> unreserved (CHR ''='')"
  by (simp_all add: unreserved_def alphanumeric_def)

lemma encode_char_plain:
  assumes "c \<in> set (encode_char x)"
  shows "c \<noteq> CHR ''&'' \<and> c \<noteq> CHR ''=''"
proof (cases "unreserved x")
  case True
  then have "c = x"
    using assms by (simp add: encode_char_def)
  then show ?thesis
    using True separators_reserved by blast
next
  case False
  then have "c = CHR ''%'' \<or> c = hex_digit (of_char x div 16) \<or> c = hex_digit (of_char x)"
    using assms by (simp add: encode_char_def)
  then show ?thesis
    using hex_digit_plain by auto
qed

lemma encodeURIComponent_plain:
  "CHR ''&'' \<notin> set (encodeURIComponent s)" "CHR ''='' \<notin> set (encodeURIComponent s)"
  using encode_char_plain by (auto simp: encodeURIComponent_def)

lemma keyvalue_no_ampersand: "CHR ''&'' \<notin> set (keyvalue key text)"
  using encodeURIComponent_plain(1) by (simp add: keyvalue_def)

lemma keyvalue_key:
  "takeWhile (\<lambda>c. c \<noteq> CHR ''='') (keyvalue key text) = encodeURIComponent key"
proof -
  have "takeWhile (\<lambda>c. c \<noteq> CHR ''='')
               (encodeURIComponent key @ CHR ''='' # encodeURIComponent text)
             = encodeURIComponent key @ takeWhile (\<lambda>c. c \<noteq> CHR ''='')
                 (CHR ''='' # encodeURIComponent text)"
  proof (rule takeWhile_append2)
    fix c
    assume "c \<in> set (encodeURIComponent key)"
    then show "c \<noteq> CHR ''=''"
      using encodeURIComponent_plain(2) by blast
  qed
  then show ?thesis
    by (simp add: keyvalue_def)
qed

lemma split_join:
  "segs \<noteq> [] \<Longrightarrow> \<forall>s \<in> set segs. sep \<notin> set s \<Longrightarrow> split_js sep (join_js [sep] segs) = segs"
proof (induction "[sep]" segs rule: join_js.induct)
  case 1
  then show ?case by simp
next
  case (2 x)
  then show ?case by (simp add: split_js_no_sep)
next
  case (3 x y ys)
  then have "split_js sep (join_js [sep] (y # ys)) = y # ys" and "sep \<notin> set x"
    by auto
  then show ?case
    using split_js_append_sep [of sep x "join_js [sep] (y # ys)"] by simp
qed

lemma plain_keys:
  "encodeURIComponent ''audience'' = ''audience''"
  "encodeURIComponent ''scope'' = ''scope''"
  "encodeURIComponent ''response_type'' = ''response_type''"
  "encodeURIComponent ''client_id'' = ''client_id''"
  "encodeURIComponent ''redirect_uri'' = ''redirect_uri''"
  "encodeURIComponent ''code_challenge'' = ''code_challenge''"
  "encodeURIComponent ''code_challenge_method'' = ''code_challenge_method''"
  "encodeURIComponent ''code'' = ''code''"
  "encodeURIComponent ''S256'' = ''S256''"
  by (simp_all add: encodeURIComponent_def encode_char_def unreserved_def alphanumeric_def)

lemma qfield_truthy: "truthy v \<Longrightarrow> qfield v = QPrimitive (string_of v)"
  by (cases v) simp_all

text \<open>The authorize URL of a complete configuration when no hint is given.\<close>

lemma prepareSignInAuthUrl_no_hints:
  assumes "truthy (audience (auth0Config (config this)))"
    and "truthy (clientId (auth0Config (config this)))"
    and "truthy (redirectUri (auth0Config (config this)))"
  shows "prepareSignInAuthUrl this None None None
         = Inr (''https://'' @ String_js (domain (auth0Config (config this))) @ ''/authorize?''
                @ join_js ''&''
                  [keyvalue ''audience'' (string_of (audience (auth0Config (config this)))),
                   keyvalue ''scope'' (string_of (or_else (scope (auth0Config (config this)))
                      (Some ''offline_access openid profile email''))),
                   keyvalue ''response_type'' ''code'',
                   keyvalue ''client_id'' (string_of (clientId (auth0Config (config this)))),
                   keyvalue ''redirect_uri'' (string_of (redirectUri (auth0Config (config this)))),
                   keyvalue ''code_challenge''
                     (challenge (SHA256 this) (Base64_stringify this) (verifier this)),
                   keyvalue ''code_challenge_method'' ''S256''])"
proof -
  have sc: "truthy (or_else (scope (auth0Config (config this)))
                      (Some ''offline_access openid profile email''))"
    by (simp add: or_else_def)
  show ?thesis
    using assms
    by (simp add: prepareSignInAuthUrl_def signIn_params_def objectToQueryParams_def Let_def
        or_null_def qfield_truthy [OF sc] qfield_truthy)
qed

text \<open>
  C8. With a non-empty audience, client id and redirect URI and no hint, the authorize
  URL is \<open>https://{domain}/authorize?\<close> followed by a query whose \<open>&\<close>-separated
  entries include \<open>response_type=code\<close> and \<open>code_challenge_method=S256\<close>, and none of
  whose entries has the key \<open>login_hint\<close>, \<open>connection\<close> or \<open>screen_hint\<close>.
\<close>

theorem authorize_url_query_without_hints:
  assumes "truthy (audience (auth0Config (config this)))"
    and "truthy (clientId (auth0Config (config this)))"
    and "truthy (redirectUri (auth0Config (config this)))"
  shows "\<exists>q. prepareSignInAuthUrl this None None None
               = Inr (''https://'' @ String_js (domain (auth0Config (config this)))
                      @ ''/authorize?'' @ q)
             \<and> ''response_type=code'' \<in> set (split_js (CHR ''&'') q)
             \<and> ''code_challenge_method=S256'' \<in> set (split_js (CHR ''&'') q)
             \<and> (\<forall>entry \<in> set (split_js (CHR ''&'') q).
                   takeWhile (\<lambda>c. c \<noteq> CHR ''='') entry
                     \<notin> {''login_hint'', ''connection'', ''screen_hint''})"
proof -
  define segs where "segs = [keyvalue ''audience'' (string_of (audience (auth0Config (config this)))),
      keyvalue ''scope'' (string_of (or_else (scope (auth0Config (config this)))
         (Some ''offline_access openid profile email''))),
      keyvalue ''response_type'' ''code'',
      keyvalue ''client_id'' (string_of (clientId (auth0Config (config this)))),
      keyvalue ''redirect_uri'' (string_of (redirectUri (auth0Config (config this)))),
      keyvalue ''code_challenge''
        (challenge (SHA256 this) (Base64_stringify this) (verifier this)),
      keyvalue ''code_challenge_method'' ''S256'']"
  have built: "prepareSignInAuthUrl this None None None
               = Inr (''https://'' @ String_js (domain (auth0Config (config this)))
                      @ ''/authorize?'' @ join_js ''&'' segs)"
    unfolding segs_def by (rule prepareSignInAuthUrl_no_hints [OF assms])
  have "segs \<noteq> []" and "\<forall>s \<in> set segs. CHR ''&'' \<notin> set s"
    by (simp_all add: segs_def keyvalue_no_ampersand)
  then have entries: "split_js (CHR ''&'') (join_js ''&'' segs) = segs"
    by (rule split_join)
  have rt: "''response_type=code'' \<in> set segs"
    and ccm: "''code_challenge_method=S256'' \<in> set segs"
    by (simp_all add: segs_def keyvalue_def plain_keys)
  have keys: "\<forall>entry \<in> set segs. takeWhile (\<lambda>c. c \<noteq> CHR ''='') entry
                \<notin> {''login_hint'', ''connection'', ''screen_hint''}"
    by (simp add: segs_def keyvalue_key plain_keys)
  show ?thesis
    using built rt ccm keys by (intro exI [of _ "join_js ''&'' segs"]) (simp only: entries)
qed

theorem authorize_url_query_without_hints_witness:
  "truthy (audience (auth0Config (config sample_session)))
   \<and> truthy (clientId (auth0Config (config sample_session)))
   \<and> truthy (redirectUri (auth0Config (config sample_session)))
   \<and> (\<exists>q. prepareSignInAuthUrl sample_session None None None
               = Inr (''https://'' @ String_js (domain (auth0Config (config sample_session)))
                      @ ''/authorize?'' @ q)
             \<and> ''response_type=code'' \<in> set (split_js (CHR ''&'') q)
             \<and> ''code_challenge_method=S256'' \<in> set (split_js (CHR ''&'') q)
             \<and> (\<forall>entry \<in> set (split_js (CHR ''&'') q).
                   takeWhile (\<lambda>c. c \<noteq> CHR ''='') entry
                     \<notin> {''login_hint'', ''connection'', ''screen_hint''}))"
proof -
  have h1: "truthy (audience (auth0Config (config sample_session)))"
    and h2: "truthy (clientId (auth0Config (config sample_session)))"
    and h3: "truthy (redirectUri (auth0Config (config sample_session)))"
    by (simp_all add: sample_session_def sample_config_def)
  show ?thesis
    using h1 h2 h3 authorize_url_query_without_hints [OF h1 h2 h3] by (intro conjI)
qed


end
